theory Spec2Isabelle
  imports Main "HOL-Library.Sublist"
begin

section \<open>Strings\<close>

text \<open>
  The program is one Python script, \<^verbatim>\<open>main.py\<close>. A Python string is a sequence of Unicode code
  points, so a text is a list of code points, each a natural number. \<open>str\<close> turns a literal of
  ASCII characters into the text it denotes.
\<close>

type_synonym pytext = "nat list"

definition str :: "string \<Rightarrow> pytext" where
  "str s = map of_char s"

definition in_range :: "char \<Rightarrow> char \<Rightarrow> nat \<Rightarrow> bool" where
  "in_range lo hi c \<longleftrightarrow> of_char lo \<le> c \<and> c \<le> of_char hi"

text \<open>
  \<^verbatim>\<open>str.lower()\<close> replaces every code point by its lowercase, position by position. For the code
  points of ASCII that is: \<^verbatim>\<open>A\<close> to \<^verbatim>\<open>Z\<close> become \<^verbatim>\<open>a\<close> to \<^verbatim>\<open>z\<close>, every other one stays. For
  a code point above \<^verbatim>\<open>U+007F\<close> the lowercase comes from the Unicode database of the Python
  runtime, a table that is not part of the repository; it can be one code point or several
  (\<^verbatim>\<open>U+212A\<close> becomes \<^verbatim>\<open>k\<close>, \<^verbatim>\<open>U+0130\<close> becomes \<^verbatim>\<open>i\<close> and \<^verbatim>\<open>U+0307\<close>), and for \<^verbatim>\<open>U+03A3\<close> it
  depends on the neighbours. The table is a parameter of the model: a \<open>lowercasing\<close> gives,
  for a text and a position that holds a code point above \<^verbatim>\<open>U+007F\<close>, what \<^verbatim>\<open>str.lower()\<close> puts
  there. Every theorem below holds for every such table.
\<close>

type_synonym lowercasing = "pytext \<Rightarrow> nat \<Rightarrow> pytext"

definition lower_at :: "lowercasing \<Rightarrow> pytext \<Rightarrow> nat \<Rightarrow> pytext" where
  "lower_at ul s i =
     (let c = s ! i
      in if c < 128 then [if in_range (CHR ''A'') (CHR ''Z'') c then c + 32 else c]
         else ul s i)"

definition lower :: "lowercasing \<Rightarrow> pytext \<Rightarrow> pytext" where
  "lower ul s = concat (map (lower_at ul s) [0..<length s])"

text \<open>Python's \<^verbatim>\<open>needle in haystack\<close> on strings: the needle occurs as a contiguous substring.\<close>

fun py_in :: "pytext \<Rightarrow> pytext \<Rightarrow> bool" where
  "py_in needle [] = (needle = [])"
| "py_in needle (c # cs) = (prefix needle (c # cs) \<or> py_in needle cs)"

section \<open>The URL pattern\<close>

text \<open>
  \<^verbatim>\<open>url_pattern = r'http[s]?://(?:[a-zA-Z]|[0-9]|[$-_@.&+]|[!*\\(\\),]|(?:%[0-9a-fA-F][0-9a-fA-F]))+'\<close>

  The pattern is a string pattern compiled without flags, so its classes hold exactly the
  code points written in them. The group after \<^verbatim>\<open>://\<close> is an alternation of five alternatives,
  tried from left to right: a letter, a digit, a character of \<^verbatim>\<open>[$-_@.&+]\<close> (the range from
  \<^verbatim>\<open>$\<close> to \<^verbatim>\<open>_\<close>, and four characters more), a character of \<^verbatim>\<open>[!*\\(\\),]\<close> (in the raw string
  \<^verbatim>\<open>\\\<close> is an escaped backslash, the code point \<^verbatim>\<open>U+005C\<close>), and a percent sign followed by two
  hexadecimal digits.
\<close>

definition alt_letter :: "nat \<Rightarrow> bool" where
  "alt_letter c \<longleftrightarrow> in_range (CHR ''a'') (CHR ''z'') c \<or> in_range (CHR ''A'') (CHR ''Z'') c"

definition alt_digit :: "nat \<Rightarrow> bool" where
  "alt_digit c \<longleftrightarrow> in_range (CHR ''0'') (CHR ''9'') c"

definition alt_punct :: "nat \<Rightarrow> bool" where
  "alt_punct c \<longleftrightarrow> in_range (CHR ''$'') (CHR ''_'') c \<or> c \<in> set (str ''@.&+'')"

definition alt_other :: "nat \<Rightarrow> bool" where
  "alt_other c \<longleftrightarrow> c \<in> set (str ''!*'' @ [0x5C] @ str ''('' @ [0x5C] @ str ''),'')"

definition hex_digit :: "nat \<Rightarrow> bool" where
  "hex_digit c \<longleftrightarrow> in_range (CHR ''0'') (CHR ''9'') c \<or> in_range (CHR ''a'') (CHR ''f'') c
     \<or> in_range (CHR ''A'') (CHR ''F'') c"

text \<open>
  One iteration of the group at the head of the input: the input that remains after the first
  alternative that matches, or \<open>None\<close> when none does.
\<close>

fun url_group :: "pytext \<Rightarrow> pytext option" where
  "url_group [] = None"
| "url_group (c # cs) =
     (if alt_letter c then Some cs
      else if alt_digit c then Some cs
      else if alt_punct c then Some cs
      else if alt_other c then Some cs
      else if c = of_char (CHR ''%'') then
        (case cs of
           h1 # h2 # rest \<Rightarrow> if hex_digit h1 \<and> hex_digit h2 then Some rest else None
         | _ \<Rightarrow> None)
      else None)"

lemma url_group_shorter: "url_group s = Some r \<Longrightarrow> length r < length s"
  by (cases s) (auto split: if_splits list.splits)

text \<open>
  The greedy repetition of the group. Nothing follows the group in the pattern, so the matcher
  never has to give an iteration back: it repeats the group until no alternative matches.
  \<open>url_star\<close> is zero or more iterations, \<open>url_plus\<close> the pattern's \<^verbatim>\<open>+\<close>, one or more.
\<close>

function url_star :: "pytext \<Rightarrow> pytext" where
  "url_star s = (case url_group s of None \<Rightarrow> s | Some r \<Rightarrow> url_star r)"
  by pat_completeness auto
termination
  by (relation "measure length") (auto simp: url_group_shorter)

definition url_plus :: "pytext \<Rightarrow> pytext option" where
  "url_plus s = (case url_group s of None \<Rightarrow> None | Some r \<Rightarrow> Some (url_star r))"

text \<open>A literal of the pattern at the head of the input.\<close>

fun lit :: "pytext \<Rightarrow> pytext \<Rightarrow> pytext option" where
  "lit [] s = Some s"
| "lit (p # ps) [] = None"
| "lit (p # ps) (c # cs) = (if p = c then lit ps cs else None)"

text \<open>
  The whole pattern at the head of the input, giving the input after the match. \<^verbatim>\<open>[s]?\<close> is
  greedy: the matcher first takes an \<^verbatim>\<open>s\<close> when there is one, and tries the rest of the
  pattern without it when that fails.
\<close>

definition url_tail :: "pytext \<Rightarrow> pytext option" where
  "url_tail s = (case lit (str ''://'') s of None \<Rightarrow> None | Some b \<Rightarrow> url_plus b)"

definition match_url :: "pytext \<Rightarrow> pytext option" where
  "match_url s =
     (case lit (str ''http'') s of
        None \<Rightarrow> None
      | Some r \<Rightarrow>
          (case (case lit (str ''s'') r of None \<Rightarrow> None | Some r' \<Rightarrow> url_tail r') of
             Some e \<Rightarrow> Some e
           | None \<Rightarrow> url_tail r))"

lemma lit_length: "lit p s = Some r \<Longrightarrow> length s = length p + length r"
  by (induction p s rule: lit.induct) (auto split: if_splits)

lemma url_star_length: "length (url_star s) \<le> length s"
proof (induction s rule: url_star.induct)
  case (1 s)
  show ?case
  proof (cases "url_group s")
    case None
    then show ?thesis by simp
  next
    case (Some r)
    with "1" url_group_shorter [OF Some] show ?thesis by simp
  qed
qed

lemma url_plus_shorter:
  assumes "url_plus s = Some r"
  shows "length r < length s"
proof -
  from assms obtain r' where g: "url_group s = Some r'" and r: "r = url_star r'"
    by (auto simp: url_plus_def split: option.splits)
  have "length r \<le> length r'"
    unfolding r by (rule url_star_length)
  with url_group_shorter [OF g] show ?thesis by simp
qed

lemma url_tail_shorter:
  assumes "url_tail s = Some r"
  shows "length r < length s"
proof -
  from assms obtain b where l: "lit (str ''://'') s = Some b" and p: "url_plus b = Some r"
    by (auto simp: url_tail_def split: option.splits)
  from lit_length [OF l] url_plus_shorter [OF p] show ?thesis by simp
qed

lemma match_url_shorter:
  assumes "match_url s = Some r"
  shows "length r < length s"
proof -
  from assms obtain h where h: "lit (str ''http'') s = Some h"
    by (auto simp: match_url_def split: option.splits)
  have hs: "length h \<le> length s"
    using lit_length [OF h] by simp
  from assms h consider
      (with_s) h' where "lit (str ''s'') h = Some h'" "url_tail h' = Some r"
    | (without_s) "url_tail h = Some r"
    by (auto simp: match_url_def split: option.splits)
  then show ?thesis
  proof cases
    case with_s
    from lit_length [OF with_s(1)] url_tail_shorter [OF with_s(2)] hs
    show ?thesis by simp
  next
    case without_s
    from url_tail_shorter [OF without_s] hs show ?thesis by simp
  qed
qed

text \<open>
  \<^verbatim>\<open>re.findall(url_pattern, response_text)\<close>: the matches from left to right, each search
  starting where the match before it ended. The pattern has no capturing group, so a match is
  returned as the text it covers; a match is never empty.
\<close>

function findall_urls :: "pytext \<Rightarrow> pytext list" where
  "findall_urls [] = []"
| "findall_urls (c # cs) =
     (case match_url (c # cs) of
        Some rest \<Rightarrow> take (length (c # cs) - length rest) (c # cs) # findall_urls rest
      | None \<Rightarrow> findall_urls cs)"
  by pat_completeness auto
termination
  by (relation "measure length") (auto dest: match_url_shorter)

section \<open>The source extractor\<close>

text \<open>
  A source is the dictionary \<^verbatim>\<open>{"title": ..., "url": ..., "type": ...}\<close>. The page reads the
  URL with \<^verbatim>\<open>source.get("url")\<close>, so the field is optional in the data model.
\<close>

record source =
  title :: pytext
  url :: "pytext option"
  type :: pytext

definition extract_sources :: "lowercasing \<Rightarrow> pytext \<Rightarrow> source list" where
  "extract_sources ul response_text =
     (let sources = [];
          urls = findall_urls response_text;
          sources = fold (\<lambda>url sources.
              if py_in (str ''arxiv.org'') url then
                sources @ [\<lparr>title = str ''arXiv Academic Paper'', url = Some url,
                             type = str ''academic''\<rparr>]
              else if py_in (str ''wikipedia.org'') url then
                sources @ [\<lparr>title = str ''Wikipedia Article'', url = Some url,
                             type = str ''encyclopedia''\<rparr>]
              else if py_in (str ''doi.org'') url then
                sources @ [\<lparr>title = str ''Research Paper'', url = Some url,
                             type = str ''research''\<rparr>]
              else
                sources @ [\<lparr>title = str ''Web Source'', url = Some url, type = str ''web''\<rparr>])
            urls sources;
          sources =
            (if list_ex (\<lambda>keyword. py_in keyword (lower ul response_text))
                  [str ''arxiv'', str ''paper'', str ''research'', str ''study''] then
               (if \<not> list_ex (\<lambda>s. type s = str ''academic'') sources then
                  sources @ [\<lparr>title = str ''arXiv Repository'', url = Some (str ''https://arxiv.org''),
                               type = str ''academic''\<rparr>]
                else sources)
             else sources);
          sources =
            (if list_ex (\<lambda>keyword. py_in keyword (lower ul response_text))
                  [str ''wikipedia'', str ''wiki''] then
               (if \<not> list_ex (\<lambda>s. type s = str ''encyclopedia'') sources then
                  sources @ [\<lparr>title = str ''Wikipedia'', url = Some (str ''https://wikipedia.org''),
                               type = str ''encyclopedia''\<rparr>]
                else sources)
             else sources)
      in sources)"

section \<open>The conversation store and the page script\<close>

text \<open>
  A message is the dictionary \<^verbatim>\<open>{"role": ..., "content": ..., "sources": ...}\<close>. The user
  messages the script appends have no \<^verbatim>\<open>"sources"\<close> key: \<open>sources = None\<close>.
\<close>

record message =
  role :: pytext
  content :: pytext
  sources :: "source list option"

text \<open>
  The agent executor is an object of the LangChain library; the script only tests it for
  truth and calls its \<^verbatim>\<open>invoke\<close>.
\<close>

datatype agent_executor = AgentExecutor

text \<open>
  \<^verbatim>\<open>st.session_state\<close>: \<open>messages = None\<close> when the key \<^verbatim>\<open>"messages"\<close> is not in it,
  \<open>agent = None\<close> when the key \<^verbatim>\<open>"agent"\<close> is not in it, and \<open>agent = Some None\<close> when
  \<^verbatim>\<open>initialize_agent\<close> has returned \<^verbatim>\<open>None\<close>.
\<close>

record session_state =
  messages :: "message list option"
  agent :: "agent_executor option option"

text \<open>A call that returns a value or raises an exception, with the exception's text.\<close>

datatype 'a outcome = Returned 'a | Raised pytext

text \<open>
  What one run of the script gets from outside: the environment variable, the outcome of
  building the executor inside \<^verbatim>\<open>initialize_agent\<close> (the function is cached, so this is
  the outcome of the one call whose result is kept), the outcome of
  \<^verbatim>\<open>agent.invoke({"input": user_message}, ...)\<close>, the construction of the callback handler
  before it included (a response, with its \<^verbatim>\<open>"output"\<close> when it has one, or an exception), and
  the outcome of the direct call \<^verbatim>\<open>llm.invoke(user_message).content\<close>, the construction of
  \<^verbatim>\<open>ChatGroq\<close> before it included. The output of the agent and the content of the model's
  answer are strings.
\<close>

record env =
  api_key :: "pytext option"
  build_agent :: "agent_executor outcome"
  agent_invoke :: "pytext \<Rightarrow> pytext option outcome"
  llm_invoke :: "pytext \<Rightarrow> pytext outcome"

text \<open>
  The widget that triggered the run. A run of the script is triggered by at most one widget;
  \<^verbatim>\<open>st.rerun()\<close> starts a run that no widget has triggered.
\<close>

datatype widget =
  NoWidget | ButtonLatestAI | ButtonWikipedia | ButtonWebSearch | ButtonClear | ChatInput pytext

text \<open>How a run ends: at the last line, at \<^verbatim>\<open>st.stop()\<close>, or at \<^verbatim>\<open>st.rerun()\<close>.\<close>

datatype control = Completed | Stopped | Rerun

text \<open>The calls of \<^verbatim>\<open>st.error\<close> and \<^verbatim>\<open>st.warning\<close> of a run, in order.\<close>

datatype notice = Error pytext | Warning pytext

definition greeting :: message where
  "greeting =
     \<lparr>role = str ''assistant'',
      content = str ''Hello! I'm your Syam's Search Assistant. I can help you search the web, find academic papers, and browse Wikipedia. What would you like to explore today?'',
      sources = Some []\<rparr>"

definition cleared :: message where
  "cleared =
     \<lparr>role = str ''assistant'',
      content = str ''Chat cleared! How can I assist you with your research today?'',
      sources = Some []\<rparr>"

definition final_error :: pytext where
  "final_error = str ''I'm experiencing technical difficulties. Please try again in a moment.''"

text \<open>
  The text the script shows when the key is missing: a triple-quoted string of seven lines. It
  starts with a line break and four spaces; \<^verbatim>\<open>U+274C\<close> is the cross mark, \<^verbatim>\<open>10\<close> the line break.
\<close>

definition missing_key :: pytext where
  "missing_key =
     [10] @ str ''    '' @ [0x274C] @ str '' GROQ_API_KEY not found in environment variables. '' @
     [10] @ str ''    '' @
     [10] @ str ''    Please set up your API key:'' @
     [10] @ str ''    1. Create a `.env` file in your project directory'' @
     [10] @ str ''    2. Add: `GROQ_API_KEY=your_actual_api_key_here`'' @
     [10] @ str ''    3. Restart the application'' @
     [10] @ str ''    ''"

definition not_initialized :: pytext where
  "not_initialized = str ''Research assistant is not properly initialized. Please check your API key.''"

definition default_output :: pytext where
  "default_output = str ''I apologize, but I couldn't generate a proper response.''"

text \<open>\<^verbatim>\<open>initialize_agent(api_key)\<close>: the executor, or \<^verbatim>\<open>None\<close> with an error on the page.\<close>

definition initialize_agent :: "env \<Rightarrow> notice list \<times> agent_executor option" where
  "initialize_agent e =
     (case build_agent e of
        Returned agent_executor \<Rightarrow> ([], Some agent_executor)
      | Raised err \<Rightarrow> ([Error (str ''Error initializing agent: '' @ err)], None))"

text \<open>\<^verbatim>\<open>st.session_state.messages.append(m)\<close>.\<close>

definition append_message :: "message \<Rightarrow> session_state \<Rightarrow> session_state" where
  "append_message m st = st\<lparr>messages := map_option (\<lambda>ms. ms @ [m]) (messages st)\<rparr>"

text \<open>The truth value of \<^verbatim>\<open>st.session_state.agent\<close>: \<^verbatim>\<open>None\<close> is false, an executor is true.\<close>

definition agent_ready :: "session_state \<Rightarrow> bool" where
  "agent_ready st = (case agent st of Some (Some a) \<Rightarrow> True | _ \<Rightarrow> False)"

text \<open>
  \<^verbatim>\<open>if not api_key\<close>: the variable is missing or empty.
\<close>

definition no_api_key :: "env \<Rightarrow> bool" where
  "no_api_key e = (case api_key e of None \<Rightarrow> True | Some k \<Rightarrow> k = [])"

text \<open>Lines 187 to 199: the two keys of the session state are set when they are missing.\<close>

definition initialize_session :: "env \<Rightarrow> session_state \<Rightarrow> notice list \<times> session_state" where
  "initialize_session e st =
     (let st = (if messages st = None then st\<lparr>messages := Some [greeting]\<rparr> else st)
      in if agent st = None then
           (case initialize_agent e of (shown, a) \<Rightarrow> (shown, st\<lparr>agent := Some a\<rparr>))
         else ([], st))"

text \<open>
  Lines 261 to 354: the latest user message is processed. The agent is invoked; when that
  raises, the language model is called directly; when that raises too, the fixed apology is
  appended. The calls that draw on the page are taken not to raise.
\<close>

definition process_latest :: "lowercasing \<Rightarrow> env \<Rightarrow> notice list \<Rightarrow> session_state \<Rightarrow> notice list \<times> session_state" where
  "process_latest ul e shown st =
     (case messages st of
        None \<Rightarrow> (shown, st)
      | Some ms \<Rightarrow>
          if ms \<noteq> [] \<and> role (last ms) = str ''user'' \<and> agent_ready st then
            (let user_message = content (last ms) in
             case agent_invoke e user_message of
               Returned response \<Rightarrow>
                 (let output = (case response of Some out \<Rightarrow> out | None \<Rightarrow> default_output);
                      sources = extract_sources ul output
                  in (shown,
                      append_message
                        \<lparr>role = str ''assistant'', content = output, sources = Some sources\<rparr> st))
             | Raised err \<Rightarrow>
                 (let shown = shown @
                        [Warning (str ''Search tools are temporarily unavailable. Providing direct AI response...'')]
                  in case llm_invoke e user_message of
                       Returned fallback_content \<Rightarrow>
                         (let fallback_sources = extract_sources ul fallback_content
                          in (shown,
                              append_message
                                \<lparr>role = str ''assistant'', content = fallback_content,
                                 sources = Some fallback_sources\<rparr> st))
                     | Raised llm_error \<Rightarrow>
                         (shown,
                          append_message
                            \<lparr>role = str ''assistant'', content = final_error, sources = Some []\<rparr> st)))
          else (shown, st))"

text \<open>
  One run of the script, from the first line to the last, to \<^verbatim>\<open>st.stop()\<close> or to
  \<^verbatim>\<open>st.rerun()\<close>: how it ended, what it reported with \<^verbatim>\<open>st.error\<close> and \<^verbatim>\<open>st.warning\<close>, and
  the session state it left.
\<close>

definition script :: "lowercasing \<Rightarrow> env \<Rightarrow> widget \<Rightarrow> session_state \<Rightarrow> control \<times> notice list \<times> session_state" where
  "script ul e w st =
     (if no_api_key e then
        (Stopped, [Error missing_key], st)
      else
        (case initialize_session e st of (shown, st) \<Rightarrow>
           (case w of
              ButtonLatestAI \<Rightarrow>
                (Rerun, shown,
                 append_message
                   \<lparr>role = str ''user'',
                    content = str ''Find the latest research papers about artificial intelligence from arXiv'',
                    sources = None\<rparr> st)
            | ButtonWikipedia \<Rightarrow>
                (Rerun, shown,
                 append_message
                   \<lparr>role = str ''user'',
                    content = str ''Search Wikipedia for current events in technology'',
                    sources = None\<rparr> st)
            | ButtonWebSearch \<Rightarrow>
                (Rerun, shown,
                 append_message
                   \<lparr>role = str ''user'',
                    content = str ''Search the web for recent developments in machine learning'',
                    sources = None\<rparr> st)
            | ButtonClear \<Rightarrow> (Rerun, shown, st\<lparr>messages := Some [cleared]\<rparr>)
            | ChatInput prompt \<Rightarrow>
                if prompt \<noteq> [] then
                  (if \<not> agent_ready st then (Stopped, shown @ [Error not_initialized], st)
                   else (Rerun, shown,
                         append_message \<lparr>role = str ''user'', content = prompt, sources = None\<rparr> st))
                else (case process_latest ul e shown st of (shown, st) \<Rightarrow> (Completed, shown, st))
            | NoWidget \<Rightarrow>
                (case process_latest ul e shown st of (shown, st) \<Rightarrow> (Completed, shown, st)))))"

text \<open>
  One interaction: the run the widget triggered and, when it ended at \<^verbatim>\<open>st.rerun()\<close>, the run
  that follows it. The page shows what the last run reported.
\<close>

definition interact :: "lowercasing \<Rightarrow> env \<Rightarrow> widget \<Rightarrow> session_state \<Rightarrow> control \<times> notice list \<times> session_state" where
  "interact ul e w st =
     (case script ul e w st of
        (Rerun, shown, st') \<Rightarrow> script ul e NoWidget st'
      | (c, shown, st') \<Rightarrow> (c, shown, st'))"

text \<open>The session states a session can be in: it starts with no key set, and every run of the
  script, whatever triggers it and whatever the outside answers, leads from one to the next.\<close>

inductive reachable :: "lowercasing \<Rightarrow> session_state \<Rightarrow> bool"
  for ul :: lowercasing where
  start: "reachable ul \<lparr>messages = None, agent = None\<rparr>"
| run: "reachable ul st \<Longrightarrow> script ul e w st = (c, shown, st') \<Longrightarrow> reachable ul st'"


section \<open>The extractor's contract, in the words of the specification\<close>

text \<open>
  The characters a URL goes on with, as a set: the exclamation mark, the code points from
  \<^verbatim>\<open>$\<close> to \<^verbatim>\<open>_\<close> (digits, capital letters and most punctuation among them) and the small
  letters. A space, a quotation mark, \<^verbatim>\<open>#\<close>, a backquote, a brace, a line break and every code
  point above \<^verbatim>\<open>U+007F\<close> end a URL.
\<close>

definition url_char :: "nat \<Rightarrow> bool" where
  "url_char c \<longleftrightarrow> c = 0x21 \<or> (0x24 \<le> c \<and> c \<le> 0x5F) \<or> (0x61 \<le> c \<and> c \<le> 0x7A)"

text \<open>
  A text the URL pattern matches as a whole: the scheme \<^verbatim>\<open>http://\<close> or \<^verbatim>\<open>https://\<close>, followed by
  one or more of these characters.
\<close>

definition url_match :: "pytext \<Rightarrow> bool" where
  "url_match m \<longleftrightarrow>
     (\<exists>body. (m = str ''http://'' @ body \<or> m = str ''https://'' @ body) \<and> body \<noteq> [] \<and>
        list_all url_char body)"

text \<open>Some text the pattern matches starts at the head of \<open>s\<close>.\<close>

definition starts_match :: "pytext \<Rightarrow> bool" where
  "starts_match s \<longleftrightarrow> (\<exists>m r. s = m @ r \<and> url_match m)"

text \<open>
  \<open>matches_of s ms\<close>: \<open>ms\<close> are the matches of the pattern in \<open>s\<close>, from left to right. The
  text is a gap, the first match, and the rest of the text with the other matches; no match
  starts anywhere in a gap, a match is as long as it can be (the text ends after it, or goes
  on with a character that is not a URL character), and the search goes on behind it. After
  the last match the text is a gap to its end.
\<close>

inductive matches_of :: "pytext \<Rightarrow> pytext list \<Rightarrow> bool" where
  last_gap: "(\<And>a b. g = a @ b \<Longrightarrow> \<not> starts_match b) \<Longrightarrow> matches_of g []"
| gap_match:
    "(\<And>a b. g = a @ b \<Longrightarrow> b \<noteq> [] \<Longrightarrow> \<not> starts_match (b @ m @ r)) \<Longrightarrow>
     url_match m \<Longrightarrow> r = [] \<or> \<not> url_char (hd r) \<Longrightarrow> matches_of r ms \<Longrightarrow>
     matches_of (g @ m @ r) (m # ms)"

text \<open>
  The source a matched URL is turned into: the classification by substring, in the order
  \<^verbatim>\<open>arxiv.org\<close>, \<^verbatim>\<open>wikipedia.org\<close>, \<^verbatim>\<open>doi.org\<close>, and the fixed title of each category.
  \<open>sublist n h\<close> is the library's \<open>\<exists>ps ss. h = ps @ n @ ss\<close>.
\<close>

definition url_source :: "pytext \<Rightarrow> source" where
  "url_source u =
     (if sublist (str ''arxiv.org'') u then
        \<lparr>title = str ''arXiv Academic Paper'', url = Some u, type = str ''academic''\<rparr>
      else if sublist (str ''wikipedia.org'') u then
        \<lparr>title = str ''Wikipedia Article'', url = Some u, type = str ''encyclopedia''\<rparr>
      else if sublist (str ''doi.org'') u then
        \<lparr>title = str ''Research Paper'', url = Some u, type = str ''research''\<rparr>
      else \<lparr>title = str ''Web Source'', url = Some u, type = str ''web''\<rparr>)"

definition arxiv_repository :: source where
  "arxiv_repository =
     \<lparr>title = str ''arXiv Repository'', url = Some (str ''https://arxiv.org''),
      type = str ''academic''\<rparr>"

definition wikipedia_entry :: source where
  "wikipedia_entry =
     \<lparr>title = str ''Wikipedia'', url = Some (str ''https://wikipedia.org''),
      type = str ''encyclopedia''\<rparr>"

text \<open>
  An excerpt of the Unicode table, for the examples: the Kelvin sign \<^verbatim>\<open>U+212A\<close> becomes \<^verbatim>\<open>k\<close>,
  \<^verbatim>\<open>U+0130\<close> becomes \<^verbatim>\<open>i\<close> and \<^verbatim>\<open>U+0307\<close>, the capital letters \<^verbatim>\<open>U+00C0\<close> to \<^verbatim>\<open>U+00DE\<close> of
  Latin-1 (the multiplication sign \<^verbatim>\<open>U+00D7\<close> is not one) become \<^verbatim>\<open>U+00E0\<close> to \<^verbatim>\<open>U+00FE\<close>. The
  examples use no other code point above \<^verbatim>\<open>U+007F\<close>.
\<close>

definition unicode_excerpt :: lowercasing where
  "unicode_excerpt s i =
     (let c = s ! i
      in if c = 0x212A then [0x6B]
         else if c = 0x130 then [0x69, 0x307]
         else if 0xC0 \<le> c \<and> c \<le> 0xDE \<and> c \<noteq> 0xD7 then [c + 32]
         else [c])"

text \<open>The two keyword tests, on the lowercased text.\<close>

definition academic_keyword :: "pytext \<Rightarrow> bool" where
  "academic_keyword l \<longleftrightarrow>
     sublist (str ''arxiv'') l \<or> sublist (str ''paper'') l \<or> sublist (str ''research'') l \<or>
     sublist (str ''study'') l"

definition encyclopedia_keyword :: "pytext \<Rightarrow> bool" where
  "encyclopedia_keyword l \<longleftrightarrow> sublist (str ''wikipedia'') l \<or> sublist (str ''wiki'') l"

text \<open>
  The list the specification describes, for a text whose matches are \<open>ms\<close>: one source per
  match, in the order of the matches; then the synthetic academic entry, when a keyword of the
  first list occurs in the lowercased text and no source from a URL is academic; then the
  synthetic encyclopedia entry, when a keyword of the second list occurs and no source before
  it is of type encyclopedia.
\<close>

definition listed :: "lowercasing \<Rightarrow> pytext \<Rightarrow> pytext list \<Rightarrow> source list" where
  "listed ul s ms =
     (let from_urls = map url_source ms;
          academic =
            (if academic_keyword (lower ul s) \<and> str ''academic'' \<notin> type ` set from_urls
             then [arxiv_repository] else []);
          encyclopedia =
            (if encyclopedia_keyword (lower ul s) \<and>
                str ''encyclopedia'' \<notin> type ` set (from_urls @ academic)
             then [wikipedia_entry] else [])
      in from_urls @ academic @ encyclopedia)"

text \<open>
  What the specification asks of the store: it holds a message, and every message of the
  assistant carries the sources the extractor finds in its content, or no source.
\<close>

definition store_ok :: "lowercasing \<Rightarrow> message list \<Rightarrow> bool" where
  "store_ok ul ms \<longleftrightarrow>
     ms \<noteq> [] \<and>
     (\<forall>m\<in>set ms. role m = str ''assistant'' \<longrightarrow>
        sources m = Some (extract_sources ul (content m)) \<or> sources m = Some [])"

definition session_ok :: "lowercasing \<Rightarrow> session_state \<Rightarrow> bool" where
  "session_ok ul st \<longleftrightarrow> (\<forall>ms. messages st = Some ms \<longrightarrow> store_ok ul ms)"

text \<open>
  Three surroundings for the examples. In each the key is set. In the first the agent is built
  and answers with a link; in the second it is built, and both the agent and the direct call
  to the language model raise; in the third building the agent raises.
\<close>

definition answering :: env where
  "answering =
     \<lparr>api_key = Some (str ''gsk_example''),
      build_agent = Returned AgentExecutor,
      agent_invoke = (\<lambda>q. Returned (Some (str ''See https://arxiv.org/abs/1706.03762 (paper).''))),
      llm_invoke = (\<lambda>q. Raised (str ''not called''))\<rparr>"

definition failing :: env where
  "failing =
     \<lparr>api_key = Some (str ''gsk_example''),
      build_agent = Returned AgentExecutor,
      agent_invoke = (\<lambda>q. Raised (str ''tool error'')),
      llm_invoke = (\<lambda>q. Raised (str ''connection error''))\<rparr>"

definition unbuilt :: env where
  "unbuilt =
     \<lparr>api_key = Some (str ''gsk_example''),
      build_agent = Raised (str ''hub unreachable''),
      agent_invoke = (\<lambda>q. Raised (str ''not called'')),
      llm_invoke = (\<lambda>q. Raised (str ''not called''))\<rparr>"

section \<open>Substrings\<close>

lemma py_in_sublist: "py_in n h \<longleftrightarrow> sublist n h"
proof (induction h)
  case Nil
  show ?case by simp
next
  case (Cons c cs)
  show ?case
  proof (cases n)
    case Nil
    then show ?thesis by simp
  next
    case (Cons x xs)
    with Cons.IH show ?thesis by (simp add: sublist_Cons_right)
  qed
qed

section \<open>The pattern, character by character\<close>

lemma url_char_alt: "url_char c \<longleftrightarrow> alt_letter c \<or> alt_digit c \<or> alt_punct c \<or> alt_other c"
  by (auto simp: url_char_def alt_letter_def alt_digit_def alt_punct_def alt_other_def
      in_range_def str_def)

lemma percent_is_url_char: "url_char (of_char (CHR ''%''))"
  by (simp add: url_char_def)

lemma url_group_char: "url_group (c # cs) = (if url_char c then Some cs else None)"
proof (cases "url_char c")
  case True
  then show ?thesis by (auto simp: url_char_alt)
next
  case False
  with percent_is_url_char have "c \<noteq> of_char (CHR ''%'')" by auto
  with False show ?thesis by (simp add: url_char_alt)
qed

lemma url_star_dropWhile: "url_star s = dropWhile url_char s"
proof (induction s)
  case Nil
  show ?case by simp
next
  case (Cons c cs)
  have "url_star (c # cs) = (case url_group (c # cs) of None \<Rightarrow> c # cs | Some r \<Rightarrow> url_star r)"
    by (rule url_star.simps)
  also have "\<dots> = (if url_char c then url_star cs else c # cs)"
    by (simp only: url_group_char split: if_splits) simp
  also have "\<dots> = dropWhile url_char (c # cs)"
    by (simp only: Cons.IH) simp
  finally show ?case .
qed

lemma url_plus_Nil: "url_plus [] = None"
  by (simp add: url_plus_def)

lemma url_plus_Cons:
  "url_plus (c # cs) = (if url_char c then Some (dropWhile url_char cs) else None)"
  unfolding url_plus_def url_group_char url_star_dropWhile by simp

lemma lit_Some_iff: "lit p s = Some r \<longleftrightarrow> s = p @ r"
  by (induction p s rule: lit.induct) auto

lemma lit_None_iff: "lit p s = None \<longleftrightarrow> \<not> prefix p s"
  by (induction p s rule: lit.induct) auto

lemma url_tail_Some_iff:
  "url_tail s = Some r \<longleftrightarrow>
     (\<exists>c cs. s = str ''://'' @ c # cs \<and> url_char c \<and> r = dropWhile url_char cs)"
proof (cases "lit (str ''://'') s")
  case None
  then have "\<not> prefix (str ''://'') s" by (simp add: lit_None_iff)
  then have "\<And>t. s \<noteq> str ''://'' @ t" by (auto simp: prefix_def)
  with None show ?thesis by (simp add: url_tail_def)
next
  case (Some b)
  then have s: "s = str ''://'' @ b" by (simp add: lit_Some_iff)
  show ?thesis
  proof (cases b)
    case Nil
    with Some s show ?thesis by (simp add: url_tail_def url_plus_Nil)
  next
    case (Cons c cs)
    with Some s show ?thesis by (auto simp: url_tail_def url_plus_Cons)
  qed
qed

lemma scheme_split: "str ''https://'' = str ''http'' @ str ''s'' @ str ''://''"
  and scheme_plain: "str ''http://'' = str ''http'' @ str ''://''"
  by (simp_all add: str_def)

lemma no_s_before_colon: "lit (str ''s'') (str ''://'' @ t) = None"
  by (simp add: str_def)

lemma match_url_https:
  "url_char c \<Longrightarrow> match_url (str ''https://'' @ c # cs) = Some (dropWhile url_char cs)"
proof -
  assume c: "url_char c"
  have 1: "lit (str ''http'') (str ''https://'' @ c # cs) = Some (str ''s'' @ str ''://'' @ c # cs)"
    by (simp add: lit_Some_iff scheme_split)
  have 2: "lit (str ''s'') (str ''s'' @ str ''://'' @ c # cs) = Some (str ''://'' @ c # cs)"
    by (simp add: lit_Some_iff)
  have 3: "url_tail (str ''://'' @ c # cs) = Some (dropWhile url_char cs)"
    using c by (simp add: url_tail_Some_iff)
  show ?thesis by (simp add: match_url_def 1 2 3)
qed

lemma match_url_http:
  "url_char c \<Longrightarrow> match_url (str ''http://'' @ c # cs) = Some (dropWhile url_char cs)"
proof -
  assume c: "url_char c"
  have 1: "lit (str ''http'') (str ''http://'' @ c # cs) = Some (str ''://'' @ c # cs)"
    by (simp add: lit_Some_iff scheme_plain)
  have 3: "url_tail (str ''://'' @ c # cs) = Some (dropWhile url_char cs)"
    using c by (simp add: url_tail_Some_iff)
  show ?thesis by (simp add: match_url_def 1 3 no_s_before_colon)
qed

lemma match_url_SomeD:
  assumes "match_url s = Some r"
  shows "\<exists>c cs. (s = str ''http://'' @ c # cs \<or> s = str ''https://'' @ c # cs) \<and> url_char c \<and>
           r = dropWhile url_char cs"
proof -
  from assms obtain h where h: "lit (str ''http'') s = Some h"
    by (auto simp: match_url_def split: option.splits)
  then have s: "s = str ''http'' @ h" by (simp add: lit_Some_iff)
  from assms h consider
      (with_s) h' where "lit (str ''s'') h = Some h'" "url_tail h' = Some r"
    | (without_s) "url_tail h = Some r"
    by (auto simp: match_url_def split: option.splits)
  then show ?thesis
  proof cases
    case with_s
    from with_s(1) have "h = str ''s'' @ h'" by (simp add: lit_Some_iff)
    moreover from with_s(2) obtain c cs
      where "h' = str ''://'' @ c # cs" "url_char c" "r = dropWhile url_char cs"
      by (auto simp: url_tail_Some_iff)
    ultimately show ?thesis using s by (auto simp: scheme_split)
  next
    case without_s
    then obtain c cs where "h = str ''://'' @ c # cs" "url_char c" "r = dropWhile url_char cs"
      by (auto simp: url_tail_Some_iff)
    then show ?thesis using s by (auto simp: scheme_plain)
  qed
qed

lemma match_url_Some_iff:
  "match_url s = Some r \<longleftrightarrow>
     (\<exists>c cs. (s = str ''http://'' @ c # cs \<or> s = str ''https://'' @ c # cs) \<and> url_char c \<and>
        r = dropWhile url_char cs)"
  using match_url_SomeD match_url_http match_url_https by blast

section \<open>Matches\<close>



lemma url_match_nonempty: "url_match m \<Longrightarrow> m \<noteq> []"
  by (auto simp: url_match_def)

lemma url_match_http: "url_match m \<Longrightarrow> prefix (str ''http'') m"
  by (auto simp: url_match_def str_def)

lemma dropWhile_run:
  assumes "list_all P xs" and "r = [] \<or> \<not> P (hd r)"
  shows "dropWhile P (xs @ r) = r"
proof -
  from assms(1) have "dropWhile P (xs @ r) = dropWhile P r"
    by (simp add: list_all_iff)
  also from assms(2) have "dropWhile P r = r"
    by (cases r) auto
  finally show ?thesis .
qed

lemma match_url_maximal:
  assumes "url_match m" and "r = [] \<or> \<not> url_char (hd r)"
  shows "match_url (m @ r) = Some r"
proof -
  from assms(1) obtain body
    where m: "m = str ''http://'' @ body \<or> m = str ''https://'' @ body"
      and body: "body \<noteq> []" "list_all url_char body"
    by (auto simp: url_match_def)
  from body obtain c cs where cs: "body = c # cs" "url_char c" "list_all url_char cs"
    by (cases body) auto
  have "dropWhile url_char (cs @ r) = r"
    using cs(3) assms(2) by (rule dropWhile_run)
  with m cs(1,2) match_url_http [of c "cs @ r"] match_url_https [of c "cs @ r"]
  show ?thesis by auto
qed

lemma match_url_match:
  assumes "match_url s = Some r"
  shows "\<exists>m. s = m @ r \<and> url_match m \<and> (r = [] \<or> \<not> url_char (hd r))"
proof -
  from match_url_SomeD [OF assms] obtain c cs
    where s: "s = str ''http://'' @ c # cs \<or> s = str ''https://'' @ c # cs"
      and c: "url_char c" and r: "r = dropWhile url_char cs"
    by blast
  have split: "cs = takeWhile url_char cs @ r"
    by (simp add: r)
  have tail: "r = [] \<or> \<not> url_char (hd r)"
    unfolding r by (cases "dropWhile url_char cs = []") (auto simp: hd_dropWhile)
  have body: "list_all url_char (c # takeWhile url_char cs)"
    using c by (auto simp: list_all_iff dest: set_takeWhileD)
  from s show ?thesis
  proof
    assume "s = str ''http://'' @ c # cs"
    with split have "s = (str ''http://'' @ c # takeWhile url_char cs) @ r" by simp
    moreover have "url_match (str ''http://'' @ c # takeWhile url_char cs)"
      unfolding url_match_def using body by blast
    ultimately show ?thesis using tail by blast
  next
    assume "s = str ''https://'' @ c # cs"
    with split have "s = (str ''https://'' @ c # takeWhile url_char cs) @ r" by simp
    moreover have "url_match (str ''https://'' @ c # takeWhile url_char cs)"
      unfolding url_match_def using body by blast
    ultimately show ?thesis using tail by blast
  qed
qed

lemma starts_match_matches:
  assumes "starts_match s"
  shows "\<exists>r. match_url s = Some r"
proof -
  from assms obtain m t where s: "s = m @ t" and m: "url_match m"
    by (auto simp: starts_match_def)
  from m obtain body
    where sch: "m = str ''http://'' @ body \<or> m = str ''https://'' @ body"
      and body: "body \<noteq> []" "list_all url_char body"
    by (auto simp: url_match_def)
  from body obtain c cs where cs: "body = c # cs" "url_char c"
    by (cases body) auto
  from sch s cs(1) have "s = str ''http://'' @ c # (cs @ t) \<or> s = str ''https://'' @ c # (cs @ t)"
    by auto
  with cs(2) match_url_http [of c "cs @ t"] match_url_https [of c "cs @ t"]
  show ?thesis by auto
qed

lemma match_url_None_iff: "match_url s = None \<longleftrightarrow> \<not> starts_match s"
proof
  assume "match_url s = None"
  with starts_match_matches [of s] show "\<not> starts_match s" by auto
next
  assume n: "\<not> starts_match s"
  show "match_url s = None"
  proof (cases "match_url s")
    case None
    then show ?thesis .
  next
    case (Some r)
    from match_url_match [OF Some] have "starts_match s"
      by (auto simp: starts_match_def)
    with n show ?thesis by simp
  qed
qed

lemma not_starts_match_Nil: "\<not> starts_match []"
  by (auto simp: starts_match_def dest: url_match_nonempty)

section \<open>The matches of a text\<close>

lemma matches_of_skip:
  assumes "\<not> starts_match (c # cs)" and "matches_of cs ms"
  shows "matches_of (c # cs) ms"
  using assms(2)
proof cases
  case (last_gap)
  have "\<not> starts_match b" if "c # cs = a @ b" for a b
  proof (cases a)
    case Nil
    with that assms(1) show ?thesis by simp
  next
    case (Cons x a')
    with that have "cs = a' @ b" by simp
    with last_gap(2) show ?thesis by blast
  qed
  then have "matches_of (c # cs) []" by (rule matches_of.last_gap)
  with last_gap(1) show ?thesis by simp
next
  case (gap_match g m r ms')
  have "\<not> starts_match (b @ m @ r)" if "c # g = a @ b" "b \<noteq> []" for a b
  proof (cases a)
    case Nil
    with that(1) gap_match(1) have "b @ m @ r = c # cs" by simp
    with assms(1) show ?thesis by simp
  next
    case (Cons x a')
    with that have "g = a' @ b" by simp
    with gap_match(3) that(2) show ?thesis by blast
  qed
  then have "matches_of ((c # g) @ m @ r) (m # ms')"
    using gap_match(4,5,6) by (rule matches_of.gap_match)
  with gap_match(1,2) show ?thesis by simp
qed

lemma findall_matches_of: "matches_of s (findall_urls s)"
proof (induction s rule: findall_urls.induct)
  case 1
  have "matches_of [] []"
    by (rule matches_of.last_gap) (simp add: not_starts_match_Nil)
  then show ?case by simp
next
  case (2 c cs)
  show ?case
  proof (cases "match_url (c # cs)")
    case None
    then have "\<not> starts_match (c # cs)" by (simp add: match_url_None_iff)
    moreover from "2.IH"(1) [OF None] have "matches_of cs (findall_urls cs)" .
    ultimately have "matches_of (c # cs) (findall_urls cs)" by (rule matches_of_skip)
    with None show ?thesis by simp
  next
    case (Some r)
    from match_url_match [OF Some] obtain m
      where m: "c # cs = m @ r" "url_match m" "r = [] \<or> \<not> url_char (hd r)"
      by blast
    from m(1) have tk: "take (length (c # cs) - length r) (c # cs) = m" by simp
    from "2.IH"(2) [OF Some] have "matches_of r (findall_urls r)" .
    with m(2,3) have "matches_of ([] @ m @ r) (m # findall_urls r)"
      by (intro matches_of.gap_match) auto
    with m(1) have "matches_of (c # cs) (m # findall_urls r)" by simp
    with Some tk show ?thesis by (simp del: take_Suc_Cons)
  qed
qed

lemma findall_gap: "(\<And>a b. g = a @ b \<Longrightarrow> \<not> starts_match b) \<Longrightarrow> findall_urls g = []"
proof (induction g)
  case Nil
  show ?case by simp
next
  case (Cons c g)
  from Cons.prems [of "[]" "c # g"] have "match_url (c # g) = None"
    by (simp add: match_url_None_iff)
  moreover have "findall_urls g = []"
  proof (rule Cons.IH)
    fix a b assume "g = a @ b"
    then have "c # g = (c # a) @ b" by simp
    then show "\<not> starts_match b" by (rule Cons.prems)
  qed
  ultimately show ?case by simp
qed

lemma findall_gap_match:
  assumes "\<And>a b. g = a @ b \<Longrightarrow> b \<noteq> [] \<Longrightarrow> \<not> starts_match (b @ m @ r)"
    and "url_match m" and "r = [] \<or> \<not> url_char (hd r)"
  shows "findall_urls (g @ m @ r) = m # findall_urls r"
  using assms(1)
proof (induction g)
  case Nil
  from url_match_nonempty [OF assms(2)] obtain c cs where m: "m = c # cs"
    by (cases m) auto
  have "match_url (m @ r) = Some r"
    using assms(2,3) by (rule match_url_maximal)
  moreover have "take (length (m @ r) - length r) (m @ r) = m" by simp
  ultimately have "findall_urls (m @ r) = m # findall_urls r"
    unfolding m by (simp del: take_Suc_Cons)
  then show ?case by simp
next
  case (Cons c g)
  from Cons.prems [of "[]" "c # g"] have "match_url (c # g @ m @ r) = None"
    by (simp add: match_url_None_iff)
  moreover have "findall_urls (g @ m @ r) = m # findall_urls r"
  proof (rule Cons.IH)
    fix a b assume "g = a @ b" "b \<noteq> []"
    then have "c # g = (c # a) @ b" "b \<noteq> []" by simp_all
    then show "\<not> starts_match (b @ m @ r)" by (rule Cons.prems)
  qed
  ultimately show ?case by simp
qed

lemma matches_of_findall: "matches_of s ms \<Longrightarrow> findall_urls s = ms"
proof (induction rule: matches_of.induct)
  case (last_gap g)
  then show ?case by (intro findall_gap) blast
next
  case (gap_match g m r ms)
  from gap_match(1,2,3) have "findall_urls (g @ m @ r) = m # findall_urls r"
    by (intro findall_gap_match) blast+
  with gap_match.IH show ?case by simp
qed

lemma matches_of_iff: "matches_of s ms \<longleftrightarrow> ms = findall_urls s"
  using findall_matches_of matches_of_findall by auto

section \<open>The loop of the extractor\<close>

lemma loop_body:
  "(\<lambda>url sources.
      if py_in (str ''arxiv.org'') url then
        sources @ [\<lparr>title = str ''arXiv Academic Paper'', url = Some url,
                     type = str ''academic''\<rparr>]
      else if py_in (str ''wikipedia.org'') url then
        sources @ [\<lparr>title = str ''Wikipedia Article'', url = Some url,
                     type = str ''encyclopedia''\<rparr>]
      else if py_in (str ''doi.org'') url then
        sources @ [\<lparr>title = str ''Research Paper'', url = Some url,
                     type = str ''research''\<rparr>]
      else
        sources @ [\<lparr>title = str ''Web Source'', url = Some url, type = str ''web''\<rparr>])
   = (\<lambda>url sources. sources @ [url_source url])"
  by (intro ext) (simp add: url_source_def py_in_sublist)

lemma fold_append_each: "fold (\<lambda>x acc. acc @ [f x]) xs acc = acc @ map f xs"
  by (induction xs arbitrary: acc) simp_all

lemma academic_test:
  "list_ex (\<lambda>keyword. py_in keyword l) [str ''arxiv'', str ''paper'', str ''research'', str ''study'']
     \<longleftrightarrow> academic_keyword l"
  by (simp add: academic_keyword_def py_in_sublist)

lemma encyclopedia_test:
  "list_ex (\<lambda>keyword. py_in keyword l) [str ''wikipedia'', str ''wiki'']
     \<longleftrightarrow> encyclopedia_keyword l"
  by (simp add: encyclopedia_keyword_def py_in_sublist)

lemma type_test: "list_ex (\<lambda>s. type s = t) xs \<longleftrightarrow> t \<in> type ` set xs"
  by (auto simp: list_ex_iff)

lemma extract_sources_listed: "extract_sources ul s = listed ul s (findall_urls s)"
  unfolding extract_sources_def listed_def loop_body fold_append_each Let_def
    academic_test encyclopedia_test type_test
  by (simp add: arxiv_repository_def wikipedia_entry_def)

section \<open>Where the matches lie\<close>

lemma matches_of_parts:
  "matches_of s ms \<Longrightarrow> m \<in> set ms \<Longrightarrow> url_match m \<and> sublist m s"
proof (induction rule: matches_of.induct)
  case (last_gap g)
  then show ?case by simp
next
  case (gap_match g m' r ms)
  show ?case
  proof (cases "m = m'")
    case True
    have "sublist m' (g @ m' @ r)" by (rule sublist_appendI)
    with True gap_match(2) show ?thesis by simp
  next
    case False
    with gap_match.prems gap_match.IH have "url_match m \<and> sublist m r" by simp
    moreover have "sublist r (g @ m' @ r)"
      using sublist_appendI [of r "g @ m'" "[]"] by simp
    ultimately show ?thesis by (meson sublist_order.order_trans)
  qed
qed

lemma no_match_iff:
  "matches_of s [] \<longleftrightarrow> \<not> (\<exists>a m b. s = a @ m @ b \<and> url_match m)"
proof
  assume "matches_of s []"
  then have gap: "\<And>a b. s = a @ b \<Longrightarrow> \<not> starts_match b"
    by cases auto
  show "\<not> (\<exists>a m b. s = a @ m @ b \<and> url_match m)"
  proof
    assume "\<exists>a m b. s = a @ m @ b \<and> url_match m"
    then obtain a m b where "s = a @ (m @ b)" "url_match m" by auto
    then have "starts_match (m @ b)" "s = a @ (m @ b)"
      by (auto simp: starts_match_def)
    with gap show False by blast
  qed
next
  assume n: "\<not> (\<exists>a m b. s = a @ m @ b \<and> url_match m)"
  show "matches_of s []"
  proof (rule matches_of.last_gap)
    fix a b assume "s = a @ b"
    with n show "\<not> starts_match b" by (auto simp: starts_match_def)
  qed
qed






section \<open>The sources of the list\<close>

lemma url_source_fields:
  "url (url_source u) = Some u"
  "type (url_source u) \<in> {str ''academic'', str ''encyclopedia'', str ''research'', str ''web''}"
  "title (url_source u) \<in>
     {str ''arXiv Academic Paper'', str ''Wikipedia Article'', str ''Research Paper'',
      str ''Web Source''}"
  by (simp_all add: url_source_def)

lemma url_source_academic: "type (url_source u) = str ''academic'' \<longleftrightarrow> sublist (str ''arxiv.org'') u"
  by (simp add: url_source_def str_def)

lemma url_source_encyclopedia:
  "type (url_source u) = str ''encyclopedia'' \<longleftrightarrow>
     \<not> sublist (str ''arxiv.org'') u \<and> sublist (str ''wikipedia.org'') u"
  by (simp add: url_source_def str_def)

lemma url_source_not_wikipedia_entry: "url_source u \<noteq> wikipedia_entry"
proof
  assume "url_source u = wikipedia_entry"
  then have "title (url_source u) = str ''Wikipedia''" by (simp add: wikipedia_entry_def)
  with url_source_fields(3) [of u] show False by (simp add: str_def)
qed

lemma synthetic_differ: "arxiv_repository \<noteq> wikipedia_entry"
  by (simp add: arxiv_repository_def wikipedia_entry_def str_def)

lemma listed_from_urls: "take (length ms) (listed ul s ms) = map url_source ms"
  by (simp add: listed_def Let_def)

lemma listed_members:
  "x \<in> set (listed ul s ms) \<Longrightarrow>
     x \<in> url_source ` set ms \<or> x = arxiv_repository \<or> x = wikipedia_entry"
  by (auto simp: listed_def Let_def split: if_splits)

lemma wiki_in_wikipedia: "sublist (str ''wikipedia'') l \<Longrightarrow> sublist (str ''wiki'') l"
proof -
  assume w: "sublist (str ''wikipedia'') l"
  have "str ''wikipedia'' = [] @ str ''wiki'' @ str ''pedia''" by (simp add: str_def)
  then have "sublist (str ''wiki'') (str ''wikipedia'')" unfolding sublist_def by blast
  from this w show ?thesis by (rule sublist_order.order_trans)
qed

lemma encyclopedia_keyword_wiki: "encyclopedia_keyword l \<longleftrightarrow> sublist (str ''wiki'') l"
  using wiki_in_wikipedia by (auto simp: encyclopedia_keyword_def)

text \<open>
  The lowercase of a code point above \<^verbatim>\<open>U+007F\<close> can be an ASCII letter. In the text
  \<^verbatim>\<open>wi\<close>, \<^verbatim>\<open>U+212A\<close>, \<^verbatim>\<open>I\<close> the keyword \<open>wiki\<close> is found through the Kelvin sign.
\<close>

lemma kelvin_sign_keyword:
  "lower unicode_excerpt (str ''wi'' @ [0x212A] @ str ''I'') = str ''wiki''"
  "extract_sources unicode_excerpt (str ''wi'' @ [0x212A] @ str ''I'') =
     [\<lparr>title = str ''Wikipedia'', url = Some (str ''https://wikipedia.org''),
        type = str ''encyclopedia''\<rparr>]"
  by code_simp+

text \<open>On a text of ASCII characters the table is not consulted.\<close>

lemma concat_singletons: "concat (map (\<lambda>i. [f i]) xs) = map f xs"
  by (induction xs) simp_all

lemma lower_ascii:
  assumes "\<forall>c\<in>set s. c < 128"
  shows "lower ul s = map (\<lambda>c. if in_range (CHR ''A'') (CHR ''Z'') c then c + 32 else c) s"
proof -
  let ?g = "\<lambda>c. if in_range (CHR ''A'') (CHR ''Z'') c then c + 32 else c"
  have "map (lower_at ul s) [0..<length s] = map (\<lambda>i. [?g (s ! i)]) [0..<length s]"
    using assms by (intro map_cong refl) (simp add: lower_at_def)
  then have "concat (map (lower_at ul s) [0..<length s]) =
      concat (map (\<lambda>i. [?g (s ! i)]) [0..<length s])"
    by (rule arg_cong)
  also have "\<dots> = map (\<lambda>i. ?g (s ! i)) [0..<length s]"
    by (rule concat_singletons)
  also have "\<dots> = map ?g (map (nth s) [0..<length s])"
    by (simp only: map_map comp_def)
  also have "\<dots> = map ?g s"
    by (simp only: map_nth)
  finally show ?thesis by (simp only: lower_def)
qed





section \<open>The store under a run of the script\<close>

lemma roles_differ: "str ''user'' \<noteq> str ''assistant''"
  by (simp add: str_def)

lemma store_ok_append:
  assumes "store_ok ul ms"
    and "role m = str ''assistant'' \<Longrightarrow>
      sources m = Some (extract_sources ul (content m)) \<or> sources m = Some []"
  shows "store_ok ul (ms @ [m])"
  using assms by (auto simp: store_ok_def)

lemma store_ok_greeting: "store_ok ul [greeting]"
  by (simp add: store_ok_def greeting_def)

lemma store_ok_cleared: "store_ok ul [cleared]"
  by (simp add: store_ok_def cleared_def)

lemma session_ok_append:
  assumes "session_ok ul st"
    and "role m = str ''assistant'' \<Longrightarrow>
      sources m = Some (extract_sources ul (content m)) \<or> sources m = Some []"
  shows "session_ok ul (append_message m st)"
  using assms store_ok_append [of ul _ m]
  by (auto simp: session_ok_def append_message_def)

lemma append_message_keeps:
  "messages st \<noteq> None \<Longrightarrow> messages (append_message m st) \<noteq> None"
  "agent (append_message m st) = agent st"
  by (auto simp: append_message_def)

lemma initialize_session_ok:
  assumes "session_ok ul st" and "initialize_session e st = (shown, st')"
  shows "session_ok ul st' \<and> messages st' \<noteq> None \<and> agent st' \<noteq> None"
proof -
  define st1 where "st1 = (if messages st = None then st\<lparr>messages := Some [greeting]\<rparr> else st)"
  have ok1: "session_ok ul st1" and set1: "messages st1 \<noteq> None"
    using assms(1) store_ok_greeting by (auto simp: st1_def session_ok_def)
  from assms(2) have "messages st' = messages st1" "agent st' \<noteq> None"
    by (auto simp: initialize_session_def Let_def st1_def split: if_splits prod.splits)
  with ok1 set1 show ?thesis
    by (simp add: session_ok_def)
qed

lemma process_latest_ok:
  assumes "session_ok ul st" and "process_latest ul e shown st = (shown', st')"
  shows "session_ok ul st' \<and> (messages st \<noteq> None \<longrightarrow> messages st' \<noteq> None)"
proof -
  from assms(2) consider
      (same) "st' = st"
    | (answer) out where "st' = append_message
        \<lparr>role = str ''assistant'', content = out, sources = Some (extract_sources ul out)\<rparr> st"
    | (apology) "st' = append_message
        \<lparr>role = str ''assistant'', content = final_error, sources = Some []\<rparr> st"
    by (auto simp: process_latest_def Let_def split: option.splits if_splits outcome.splits)
  then show ?thesis
  proof cases
    case same
    with assms(1) show ?thesis by simp
  next
    case answer
    with assms(1) show ?thesis
      by (auto intro!: session_ok_append simp: append_message_keeps)
  next
    case apology
    with assms(1) show ?thesis
      by (auto intro!: session_ok_append simp: append_message_keeps)
  qed
qed

lemma script_ok:
  assumes "session_ok ul st" and "script ul e w st = (c, shown, st')"
  shows "session_ok ul st' \<and> (\<not> no_api_key e \<longrightarrow> messages st' \<noteq> None)"
proof (cases "no_api_key e")
  case True
  with assms show ?thesis by (simp add: script_def)
next
  case False
  obtain shown1 st1 where i: "initialize_session e st = (shown1, st1)"
    by (cases "initialize_session e st")
  from initialize_session_ok [OF assms(1) i]
  have ok1: "session_ok ul st1" and set1: "messages st1 \<noteq> None" by simp_all
  from assms(2) False i consider
      (user) t where "st' = append_message \<lparr>role = str ''user'', content = t, sources = None\<rparr> st1"
    | (clear) "st' = st1\<lparr>messages := Some [cleared]\<rparr>"
    | (stop) "st' = st1"
    | (latest) sh2 where "process_latest ul e shown1 st1 = (sh2, st')"
    by (cases w) (auto simp: script_def split: if_splits prod.splits)
  then have "session_ok ul st' \<and> messages st' \<noteq> None"
  proof cases
    case user
    have "session_ok ul (append_message \<lparr>role = str ''user'', content = t, sources = None\<rparr> st1)"
      using ok1 roles_differ by (intro session_ok_append) auto
    with user set1 show ?thesis by (simp add: append_message_keeps)
  next
    case clear
    with store_ok_cleared show ?thesis by (simp add: session_ok_def)
  next
    case stop
    with ok1 set1 show ?thesis by simp
  next
    case latest
    from process_latest_ok [OF ok1 latest] set1 show ?thesis by simp
  qed
  then show ?thesis by simp
qed

lemma reachable_ok: "reachable ul st \<Longrightarrow> session_ok ul st"
proof (induction rule: reachable.induct)
  case start
  show ?case by (simp add: session_ok_def)
next
  case (run st e w c shown st')
  from script_ok [OF run.IH run.hyps(2)] show ?case by simp
qed

lemma initialize_session_ready:
  "messages st = Some ms \<Longrightarrow> agent st = Some a \<Longrightarrow> initialize_session e st = ([], st)"
  by (simp add: initialize_session_def)

lemma process_latest_idle:
  "messages st = Some ms \<Longrightarrow> ms \<noteq> [] \<Longrightarrow> role (last ms) \<noteq> str ''user'' \<Longrightarrow>
     process_latest ul e shown st = (shown, st)"
  "messages st = Some ms \<Longrightarrow> agent st = Some None \<Longrightarrow> process_latest ul e shown st = (shown, st)"
  by (simp_all add: process_latest_def agent_ready_def)

section \<open>The claims about the extractor\<close>

text \<open>
  C1, as the specification states it: a text with no URL whose lowercased form contains
  \<open>research\<close> gives exactly one source. The text \<^verbatim>\<open>Wikipedia research\<close> has no match of the
  pattern and contains \<open>research\<close>, and it gives two sources: the keyword \<open>wiki\<close> is in it
  too, and the second rule adds its entry.
\<close>

theorem no_url_research_counterexample:
  "matches_of (str ''Wikipedia research'') [] \<and>
   sublist (str ''research'') (lower unicode_excerpt (str ''Wikipedia research'')) \<and>
   extract_sources unicode_excerpt (str ''Wikipedia research'') =
     [\<lparr>title = str ''arXiv Repository'', url = Some (str ''https://arxiv.org''),
        type = str ''academic''\<rparr>,
      \<lparr>title = str ''Wikipedia'', url = Some (str ''https://wikipedia.org''),
        type = str ''encyclopedia''\<rparr>] \<and>
   length (extract_sources unicode_excerpt (str ''Wikipedia research'')) = 2"
proof -
  have "[] = findall_urls (str ''Wikipedia research'')" by code_simp
  then have "matches_of (str ''Wikipedia research'') []" by (simp only: matches_of_iff)
  moreover have "sublist (str ''research'') (lower unicode_excerpt (str ''Wikipedia research''))"
    by code_simp
  moreover have "extract_sources unicode_excerpt (str ''Wikipedia research'') =
     [\<lparr>title = str ''arXiv Repository'', url = Some (str ''https://arxiv.org''),
        type = str ''academic''\<rparr>,
      \<lparr>title = str ''Wikipedia'', url = Some (str ''https://wikipedia.org''),
        type = str ''encyclopedia''\<rparr>]"
    by code_simp
  moreover have "length (extract_sources unicode_excerpt (str ''Wikipedia research'')) = 2"
    by code_simp
  ultimately show ?thesis by (intro conjI)
qed

text \<open>
  C1, amended. Let no substring of the text match the URL pattern, and let the lowercased
  text contain \<open>research\<close>. When the lowercased text does not contain \<open>wiki\<close>, the returned
  list is the one source \<open>arXiv Repository\<close>, \<open>https://arxiv.org\<close>, academic. When it
  contains \<open>wiki\<close>, that source is followed by the source \<open>Wikipedia\<close>,
  \<open>https://wikipedia.org\<close>, encyclopedia.
\<close>

theorem no_url_research:
  assumes "\<not> (\<exists>a m b. s = a @ m @ b \<and> url_match m)"
    and "sublist (str ''research'') (lower ul s)"
  shows "extract_sources ul s =
    (if sublist (str ''wiki'') (lower ul s) then
       [\<lparr>title = str ''arXiv Repository'', url = Some (str ''https://arxiv.org''),
          type = str ''academic''\<rparr>,
        \<lparr>title = str ''Wikipedia'', url = Some (str ''https://wikipedia.org''),
          type = str ''encyclopedia''\<rparr>]
     else
       [\<lparr>title = str ''arXiv Repository'', url = Some (str ''https://arxiv.org''),
          type = str ''academic''\<rparr>])"
proof -
  from assms(1) have "matches_of s []" by (rule no_match_iff [THEN iffD2])
  then have "findall_urls s = []" by (rule matches_of_findall)
  then have e: "extract_sources ul s = listed ul s []" by (simp add: extract_sources_listed)
  from assms(2) have k: "academic_keyword (lower ul s)" by (simp add: academic_keyword_def)
  have t: "type arxiv_repository \<noteq> str ''encyclopedia''"
    by (simp add: arxiv_repository_def str_def)
  show ?thesis
    unfolding e using k t
    by (simp add: listed_def encyclopedia_keyword_wiki arxiv_repository_def wikipedia_entry_def)
qed

text \<open>A sentence about research, with the keyword in capitals and no URL.\<close>

theorem no_url_research_witness:
  "\<not> (\<exists>a m b. str ''Recent RESEARCH shows progress.'' = a @ m @ b \<and> url_match m) \<and>
   sublist (str ''research'') (lower unicode_excerpt (str ''Recent RESEARCH shows progress.'')) \<and>
   extract_sources unicode_excerpt (str ''Recent RESEARCH shows progress.'') =
     [\<lparr>title = str ''arXiv Repository'', url = Some (str ''https://arxiv.org''),
        type = str ''academic''\<rparr>]"
proof -
  let ?s = "str ''Recent RESEARCH shows progress.''"
  have "[] = findall_urls ?s" by code_simp
  then have "matches_of ?s []" by (simp only: matches_of_iff)
  then have n: "\<not> (\<exists>a m b. ?s = a @ m @ b \<and> url_match m)" by (rule no_match_iff [THEN iffD1])
  have r: "sublist (str ''research'') (lower unicode_excerpt ?s)" by code_simp
  have w: "\<not> sublist (str ''wiki'') (lower unicode_excerpt ?s)" by code_simp
  from no_url_research [OF n r] w
  have "extract_sources unicode_excerpt ?s =
     [\<lparr>title = str ''arXiv Repository'', url = Some (str ''https://arxiv.org''),
        type = str ''academic''\<rparr>]"
    by (simp only: if_False)
  with n r show ?thesis by (intro conjI)
qed




text \<open>
  C3. Every text has matches of the URL pattern, from left to right, as \<open>matches_of\<close> describes
  them (no match starts in the gap before a match, each match is as long as it can be, the
  search goes on behind it). Whatever the lowercase table, the list \<open>extract_sources\<close> returns
  is: one source per match, in the order of the matches and with repetitions kept; then the
  entry \<open>arXiv Repository\<close>, exactly when the lowercased text contains one of \<open>arxiv\<close>,
  \<open>paper\<close>, \<open>research\<close>, \<open>study\<close> as a substring and no source from a URL has type
  \<open>academic\<close>; then the entry \<open>Wikipedia\<close>, exactly when the lowercased text contains
  \<open>wikipedia\<close> or \<open>wiki\<close> and no source before it has type \<open>encyclopedia\<close>.
\<close>

theorem extract_sources_order:
  "(\<exists>ms. matches_of s ms) \<and>
   (\<forall>ms. matches_of s ms \<longrightarrow>
      extract_sources ul s =
        (let from_urls = map url_source ms;
             academic =
               (if academic_keyword (lower ul s) \<and> str ''academic'' \<notin> type ` set from_urls
                then [arxiv_repository] else []);
             encyclopedia =
               (if encyclopedia_keyword (lower ul s) \<and>
                   str ''encyclopedia'' \<notin> type ` set (from_urls @ academic)
                then [wikipedia_entry] else [])
         in from_urls @ academic @ encyclopedia))"
proof
  show "\<exists>ms. matches_of s ms"
    using findall_matches_of by blast
  show "\<forall>ms. matches_of s ms \<longrightarrow>
      extract_sources ul s =
        (let from_urls = map url_source ms;
             academic =
               (if academic_keyword (lower ul s) \<and> str ''academic'' \<notin> type ` set from_urls
                then [arxiv_repository] else []);
             encyclopedia =
               (if encyclopedia_keyword (lower ul s) \<and>
                   str ''encyclopedia'' \<notin> type ` set (from_urls @ academic)
                then [wikipedia_entry] else [])
         in from_urls @ academic @ encyclopedia)"
  proof (intro allI impI)
    fix ms assume "matches_of s ms"
    then have "findall_urls s = ms" by (rule matches_of_findall)
    with extract_sources_listed [of ul s] have "extract_sources ul s = listed ul s ms" by simp
    then show "extract_sources ul s =
        (let from_urls = map url_source ms;
             academic =
               (if academic_keyword (lower ul s) \<and> str ''academic'' \<notin> type ` set from_urls
                then [arxiv_repository] else []);
             encyclopedia =
               (if encyclopedia_keyword (lower ul s) \<and>
                   str ''encyclopedia'' \<notin> type ` set (from_urls @ academic)
                then [wikipedia_entry] else [])
         in from_urls @ academic @ encyclopedia)"
      by (simp only: listed_def)
  qed
qed

text \<open>
  The text \<^verbatim>\<open>STUDY https://doi.org/10.1/x and http://example.com/a, see (Wiki)\<close> has two matches,
  the second one with the comma behind it. The keywords are found in capitals. The two sources
  from the URLs come first, in the order of the URLs, then the two synthetic entries.
\<close>

theorem extract_sources_order_witness:
  "matches_of (str ''STUDY https://doi.org/10.1/x and http://example.com/a, see (Wiki)'')
     [str ''https://doi.org/10.1/x'', str ''http://example.com/a,''] \<and>
   extract_sources unicode_excerpt
     (str ''STUDY https://doi.org/10.1/x and http://example.com/a, see (Wiki)'') =
     [\<lparr>title = str ''Research Paper'', url = Some (str ''https://doi.org/10.1/x''),
        type = str ''research''\<rparr>,
      \<lparr>title = str ''Web Source'', url = Some (str ''http://example.com/a,''),
        type = str ''web''\<rparr>,
      \<lparr>title = str ''arXiv Repository'', url = Some (str ''https://arxiv.org''),
        type = str ''academic''\<rparr>,
      \<lparr>title = str ''Wikipedia'', url = Some (str ''https://wikipedia.org''),
        type = str ''encyclopedia''\<rparr>]"
proof -
  let ?s = "str ''STUDY https://doi.org/10.1/x and http://example.com/a, see (Wiki)''"
  let ?ms = "[str ''https://doi.org/10.1/x'', str ''http://example.com/a,'']"
  have "?ms = findall_urls ?s" by code_simp
  then have m: "matches_of ?s ?ms" by (simp only: matches_of_iff)
  have v: "(let from_urls = map url_source ?ms;
             academic =
               (if academic_keyword (lower unicode_excerpt ?s) \<and>
                   str ''academic'' \<notin> type ` set from_urls
                then [arxiv_repository] else []);
             encyclopedia =
               (if encyclopedia_keyword (lower unicode_excerpt ?s) \<and>
                   str ''encyclopedia'' \<notin> type ` set (from_urls @ academic)
                then [wikipedia_entry] else [])
         in from_urls @ academic @ encyclopedia) =
     [\<lparr>title = str ''Research Paper'', url = Some (str ''https://doi.org/10.1/x''),
        type = str ''research''\<rparr>,
      \<lparr>title = str ''Web Source'', url = Some (str ''http://example.com/a,''),
        type = str ''web''\<rparr>,
      \<lparr>title = str ''arXiv Repository'', url = Some (str ''https://arxiv.org''),
        type = str ''academic''\<rparr>,
      \<lparr>title = str ''Wikipedia'', url = Some (str ''https://wikipedia.org''),
        type = str ''encyclopedia''\<rparr>]"
    by code_simp
  from extract_sources_order [of ?s unicode_excerpt] m
  have e: "extract_sources unicode_excerpt ?s =
        (let from_urls = map url_source ?ms;
             academic =
               (if academic_keyword (lower unicode_excerpt ?s) \<and>
                   str ''academic'' \<notin> type ` set from_urls
                then [arxiv_repository] else []);
             encyclopedia =
               (if encyclopedia_keyword (lower unicode_excerpt ?s) \<and>
                   str ''encyclopedia'' \<notin> type ` set (from_urls @ academic)
                then [wikipedia_entry] else [])
         in from_urls @ academic @ encyclopedia)"
    by blast
  from e v have "extract_sources unicode_excerpt ?s =
     [\<lparr>title = str ''Research Paper'', url = Some (str ''https://doi.org/10.1/x''),
        type = str ''research''\<rparr>,
      \<lparr>title = str ''Web Source'', url = Some (str ''http://example.com/a,''),
        type = str ''web''\<rparr>,
      \<lparr>title = str ''arXiv Repository'', url = Some (str ''https://arxiv.org''),
        type = str ''academic''\<rparr>,
      \<lparr>title = str ''Wikipedia'', url = Some (str ''https://wikipedia.org''),
        type = str ''encyclopedia''\<rparr>]"
    by (rule trans)
  with m show ?thesis by (rule conjI)
qed

text \<open>
  C4. Let \<open>ms\<close> be the matches of the URL pattern in a text. The source at position \<open>i\<close> of the
  returned list is built from the match at position \<open>i\<close>: it carries that match as its URL,
  and its type and title follow the first of these that holds: the URL contains \<open>arxiv.org\<close>
  (academic, \<open>arXiv Academic Paper\<close>), it contains \<open>wikipedia.org\<close> (encyclopedia,
  \<open>Wikipedia Article\<close>), it contains \<open>doi.org\<close> (research, \<open>Research Paper\<close>); otherwise the
  type is web and the title \<open>Web Source\<close>.
\<close>

theorem url_classification:
  assumes "matches_of s ms" and "i < length ms"
  shows "i < length (extract_sources ul s) \<and>
    extract_sources ul s ! i =
      (if sublist (str ''arxiv.org'') (ms ! i) then
         \<lparr>title = str ''arXiv Academic Paper'', url = Some (ms ! i), type = str ''academic''\<rparr>
       else if sublist (str ''wikipedia.org'') (ms ! i) then
         \<lparr>title = str ''Wikipedia Article'', url = Some (ms ! i), type = str ''encyclopedia''\<rparr>
       else if sublist (str ''doi.org'') (ms ! i) then
         \<lparr>title = str ''Research Paper'', url = Some (ms ! i), type = str ''research''\<rparr>
       else \<lparr>title = str ''Web Source'', url = Some (ms ! i), type = str ''web''\<rparr>)"
proof -
  from assms(1) have "findall_urls s = ms" by (rule matches_of_findall)
  then have e: "extract_sources ul s = listed ul s ms" by (simp add: extract_sources_listed)
  have "take (length ms) (extract_sources ul s) = map url_source ms"
    unfolding e by (rule listed_from_urls)
  with assms(2) have "i < length (extract_sources ul s)"
    and "extract_sources ul s ! i = url_source (ms ! i)"
    by (metis length_map length_take min_less_iff_conj, metis nth_map nth_take)
  then show ?thesis by (simp add: url_source_def)
qed

text \<open>
  A text with two URLs. The second one contains \<^verbatim>\<open>wikipedia.org\<close> and \<^verbatim>\<open>doi.org\<close>: the earlier
  test decides, the source is an encyclopedia article.
\<close>

theorem url_classification_witness:
  "matches_of (str ''http://example.com/x https://dx.doi.org/wikipedia.org/1'')
     [str ''http://example.com/x'', str ''https://dx.doi.org/wikipedia.org/1''] \<and>
   (1::nat) < length [str ''http://example.com/x'', str ''https://dx.doi.org/wikipedia.org/1''] \<and>
   1 < length (extract_sources unicode_excerpt
     (str ''http://example.com/x https://dx.doi.org/wikipedia.org/1'')) \<and>
   extract_sources unicode_excerpt
     (str ''http://example.com/x https://dx.doi.org/wikipedia.org/1'') ! 1 =
     \<lparr>title = str ''Wikipedia Article'', url = Some (str ''https://dx.doi.org/wikipedia.org/1''),
      type = str ''encyclopedia''\<rparr>"
proof -
  let ?s = "str ''http://example.com/x https://dx.doi.org/wikipedia.org/1''"
  let ?ms = "[str ''http://example.com/x'', str ''https://dx.doi.org/wikipedia.org/1'']"
  have "?ms = findall_urls ?s" by code_simp
  then have m: "matches_of ?s ?ms" by (simp only: matches_of_iff)
  have i: "(1::nat) < length ?ms" by simp
  have v: "(if sublist (str ''arxiv.org'') (?ms ! 1) then
         \<lparr>title = str ''arXiv Academic Paper'', url = Some (?ms ! 1), type = str ''academic''\<rparr>
       else if sublist (str ''wikipedia.org'') (?ms ! 1) then
         \<lparr>title = str ''Wikipedia Article'', url = Some (?ms ! 1), type = str ''encyclopedia''\<rparr>
       else if sublist (str ''doi.org'') (?ms ! 1) then
         \<lparr>title = str ''Research Paper'', url = Some (?ms ! 1), type = str ''research''\<rparr>
       else \<lparr>title = str ''Web Source'', url = Some (?ms ! 1), type = str ''web''\<rparr>) =
     \<lparr>title = str ''Wikipedia Article'', url = Some (str ''https://dx.doi.org/wikipedia.org/1''),
      type = str ''encyclopedia''\<rparr>"
    by code_simp
  from url_classification [OF m i, of unicode_excerpt] v
  have "1 < length (extract_sources unicode_excerpt ?s) \<and>
    extract_sources unicode_excerpt ?s ! 1 =
     \<lparr>title = str ''Wikipedia Article'', url = Some (str ''https://dx.doi.org/wikipedia.org/1''),
      type = str ''encyclopedia''\<rparr>"
    by (simp only:)
  with m i show ?thesis by (simp only: simp_thms)
qed

text \<open>
  C5, as the specification states it: a text with a URL that contains \<open>wikipedia.org\<close> and
  with \<open>wiki\<close> in its lowercased form gets no synthetic encyclopedia entry. The link of the
  text below contains \<open>wikipedia.org\<close>, and \<open>arxiv.org\<close> in its query. The test for
  \<open>arxiv.org\<close> comes first, so the source of the link is academic; no source is of type
  encyclopedia, and the synthetic entry is appended.
\<close>

theorem wikipedia_url_counterexample:
  "matches_of (str ''See https://en.wikipedia.org/wiki/ArXiv?site=arxiv.org'')
     [str ''https://en.wikipedia.org/wiki/ArXiv?site=arxiv.org''] \<and>
   sublist (str ''wikipedia.org'') (str ''https://en.wikipedia.org/wiki/ArXiv?site=arxiv.org'') \<and>
   sublist (str ''wiki'')
     (lower unicode_excerpt (str ''See https://en.wikipedia.org/wiki/ArXiv?site=arxiv.org'')) \<and>
   extract_sources unicode_excerpt (str ''See https://en.wikipedia.org/wiki/ArXiv?site=arxiv.org'') =
     [\<lparr>title = str ''arXiv Academic Paper'',
        url = Some (str ''https://en.wikipedia.org/wiki/ArXiv?site=arxiv.org''),
        type = str ''academic''\<rparr>,
      \<lparr>title = str ''Wikipedia'', url = Some (str ''https://wikipedia.org''),
        type = str ''encyclopedia''\<rparr>]"
proof -
  let ?s = "str ''See https://en.wikipedia.org/wiki/ArXiv?site=arxiv.org''"
  let ?u = "str ''https://en.wikipedia.org/wiki/ArXiv?site=arxiv.org''"
  have "[?u] = findall_urls ?s" by code_simp
  then have "matches_of ?s [?u]" by (simp only: matches_of_iff)
  moreover have "sublist (str ''wikipedia.org'') ?u" by code_simp
  moreover have "sublist (str ''wiki'') (lower unicode_excerpt ?s)" by code_simp
  moreover have "extract_sources unicode_excerpt ?s =
     [\<lparr>title = str ''arXiv Academic Paper'', url = Some ?u, type = str ''academic''\<rparr>,
      \<lparr>title = str ''Wikipedia'', url = Some (str ''https://wikipedia.org''),
        type = str ''encyclopedia''\<rparr>]"
    by code_simp
  ultimately show ?thesis by (intro conjI)
qed

text \<open>
  C5, amended. Let the text have a match of the URL pattern that contains \<open>wikipedia.org\<close>
  and does not contain \<open>arxiv.org\<close>, and let its lowercased form contain \<open>wiki\<close>. Then the
  returned list has no element equal to the synthetic encyclopedia entry: it is the sources
  of the matches, followed at most by the synthetic academic entry.
\<close>

theorem wikipedia_url_suppresses:
  assumes "matches_of s ms" and "u \<in> set ms"
    and "sublist (str ''wikipedia.org'') u" and "\<not> sublist (str ''arxiv.org'') u"
    and "sublist (str ''wiki'') (lower ul s)"
  shows "\<lparr>title = str ''Wikipedia'', url = Some (str ''https://wikipedia.org''),
            type = str ''encyclopedia''\<rparr> \<notin> set (extract_sources ul s) \<and>
    extract_sources ul s =
      map url_source ms @
      (if academic_keyword (lower ul s) \<and> str ''academic'' \<notin> type ` url_source ` set ms
       then [\<lparr>title = str ''arXiv Repository'', url = Some (str ''https://arxiv.org''),
                type = str ''academic''\<rparr>]
       else [])"
proof -
  from assms(1) have "findall_urls s = ms" by (rule matches_of_findall)
  then have e: "extract_sources ul s = listed ul s ms" by (simp add: extract_sources_listed)
  from assms(3,4) have "type (url_source u) = str ''encyclopedia''"
    by (simp add: url_source_encyclopedia)
  with assms(2) have enc: "str ''encyclopedia'' \<in> type ` url_source ` set ms"
    by (metis imageI)
  then have l: "listed ul s ms =
      map url_source ms @
      (if academic_keyword (lower ul s) \<and> str ''academic'' \<notin> type ` url_source ` set ms
       then [arxiv_repository] else [])"
    by (simp add: listed_def Let_def image_Un)
  have "wikipedia_entry \<notin> url_source ` set ms"
    using url_source_not_wikipedia_entry by (metis imageE)
  moreover have "wikipedia_entry \<noteq> arxiv_repository"
    using synthetic_differ by (rule not_sym)
  ultimately have "wikipedia_entry \<notin> set (listed ul s ms)"
    unfolding l by simp
  with l show ?thesis
    unfolding e by (simp add: wikipedia_entry_def arxiv_repository_def)
qed

text \<open>A Wikipedia link and the word in brackets: the list is the one article.\<close>

theorem wikipedia_url_suppresses_witness:
  "matches_of (str ''See https://en.wikipedia.org/wiki/Alan_Turing (Wiki).'')
     [str ''https://en.wikipedia.org/wiki/Alan_Turing''] \<and>
   str ''https://en.wikipedia.org/wiki/Alan_Turing''
     \<in> set [str ''https://en.wikipedia.org/wiki/Alan_Turing''] \<and>
   sublist (str ''wikipedia.org'') (str ''https://en.wikipedia.org/wiki/Alan_Turing'') \<and>
   \<not> sublist (str ''arxiv.org'') (str ''https://en.wikipedia.org/wiki/Alan_Turing'') \<and>
   sublist (str ''wiki'')
     (lower unicode_excerpt (str ''See https://en.wikipedia.org/wiki/Alan_Turing (Wiki).'')) \<and>
   \<lparr>title = str ''Wikipedia'', url = Some (str ''https://wikipedia.org''),
      type = str ''encyclopedia''\<rparr>
     \<notin> set (extract_sources unicode_excerpt
         (str ''See https://en.wikipedia.org/wiki/Alan_Turing (Wiki).'')) \<and>
   extract_sources unicode_excerpt (str ''See https://en.wikipedia.org/wiki/Alan_Turing (Wiki).'') =
     [\<lparr>title = str ''Wikipedia Article'',
        url = Some (str ''https://en.wikipedia.org/wiki/Alan_Turing''),
        type = str ''encyclopedia''\<rparr>]"
proof -
  let ?s = "str ''See https://en.wikipedia.org/wiki/Alan_Turing (Wiki).''"
  let ?u = "str ''https://en.wikipedia.org/wiki/Alan_Turing''"
  have "[?u] = findall_urls ?s" by code_simp
  then have m: "matches_of ?s [?u]" by (simp only: matches_of_iff)
  have u: "?u \<in> set [?u]" by simp
  have w: "sublist (str ''wikipedia.org'') ?u" by code_simp
  have a: "\<not> sublist (str ''arxiv.org'') ?u" by code_simp
  have k: "sublist (str ''wiki'') (lower unicode_excerpt ?s)" by code_simp
  have v: "map url_source [?u] @
      (if academic_keyword (lower unicode_excerpt ?s) \<and>
          str ''academic'' \<notin> type ` url_source ` set [?u]
       then [\<lparr>title = str ''arXiv Repository'', url = Some (str ''https://arxiv.org''),
                type = str ''academic''\<rparr>]
       else []) =
     [\<lparr>title = str ''Wikipedia Article'', url = Some ?u, type = str ''encyclopedia''\<rparr>]"
    by code_simp
  from wikipedia_url_suppresses [OF m u w a k]
  have n: "\<lparr>title = str ''Wikipedia'', url = Some (str ''https://wikipedia.org''),
      type = str ''encyclopedia''\<rparr> \<notin> set (extract_sources unicode_excerpt ?s)"
    and e: "extract_sources unicode_excerpt ?s =
      map url_source [?u] @
      (if academic_keyword (lower unicode_excerpt ?s) \<and>
          str ''academic'' \<notin> type ` url_source ` set [?u]
       then [\<lparr>title = str ''arXiv Repository'', url = Some (str ''https://arxiv.org''),
                type = str ''academic''\<rparr>]
       else [])"
    by blast+
  from e v have "extract_sources unicode_excerpt ?s =
     [\<lparr>title = str ''Wikipedia Article'', url = Some ?u, type = str ''encyclopedia''\<rparr>]"
    by (rule trans)
  with m u w a k n show ?thesis by (intro conjI)
qed

text \<open>
  C10. Every source of the returned list has a URL: the field is present, the URL is not
  empty and begins with \<open>http\<close>. Its type is one of \<open>academic\<close>, \<open>encyclopedia\<close>,
  \<open>research\<close> and \<open>web\<close>.
\<close>

theorem source_url_present:
  assumes "x \<in> set (extract_sources ul s)"
  shows "(\<exists>u. url x = Some u \<and> u \<noteq> [] \<and> prefix (str ''http'') u) \<and>
    type x \<in> {str ''academic'', str ''encyclopedia'', str ''research'', str ''web''}"
proof -
  from assms have "x \<in> set (listed ul s (findall_urls s))"
    by (simp add: extract_sources_listed)
  then consider
      (from_url) u where "u \<in> set (findall_urls s)" "x = url_source u"
    | (academic) "x = arxiv_repository"
    | (encyclopedia) "x = wikipedia_entry"
    using listed_members by blast
  then show ?thesis
  proof cases
    case from_url
    from findall_matches_of from_url(1) have "url_match u"
      using matches_of_parts by blast
    then have "u \<noteq> []" "prefix (str ''http'') u"
      by (rule url_match_nonempty, rule url_match_http)
    with from_url(2) url_source_fields(1,2) [of u] show ?thesis by simp
  next
    case academic
    then show ?thesis by (simp add: arxiv_repository_def str_def)
  next
    case encyclopedia
    then show ?thesis by (simp add: wikipedia_entry_def str_def)
  qed
qed

text \<open>The source of a DOI link, in a text that has a keyword too.\<close>

theorem source_url_present_witness:
  "\<lparr>title = str ''Research Paper'', url = Some (str ''https://doi.org/10.1000/182''),
      type = str ''research''\<rparr>
     \<in> set (extract_sources unicode_excerpt (str ''A study: https://doi.org/10.1000/182 (2020)'')) \<and>
   (\<exists>u. url \<lparr>title = str ''Research Paper'', url = Some (str ''https://doi.org/10.1000/182''),
            type = str ''research''\<rparr> = Some u \<and> u \<noteq> [] \<and> prefix (str ''http'') u) \<and>
   type \<lparr>title = str ''Research Paper'', url = Some (str ''https://doi.org/10.1000/182''),
      type = str ''research''\<rparr>
     \<in> {str ''academic'', str ''encyclopedia'', str ''research'', str ''web''}"
proof -
  let ?x = "\<lparr>title = str ''Research Paper'', url = Some (str ''https://doi.org/10.1000/182''),
      type = str ''research''\<rparr>"
  let ?s = "str ''A study: https://doi.org/10.1000/182 (2020)''"
  have "extract_sources unicode_excerpt ?s =
      [?x, \<lparr>title = str ''arXiv Repository'', url = Some (str ''https://arxiv.org''),
             type = str ''academic''\<rparr>]"
    by code_simp
  then have mem: "?x \<in> set (extract_sources unicode_excerpt ?s)"
    by (simp only: list.set insertI1)
  show ?thesis
    using mem source_url_present [OF mem] by (rule conjI)
qed

section \<open>The claims about the conversation store\<close>

text \<open>
  C6. In every session state a session can reach, by runs of the script triggered by any
  widget and with any answers from outside: once the store is initialized it holds at least
  one message, and every message of the assistant in it has as its sources the list
  \<open>extract_sources\<close> gives for the content of that message, or the empty list. Every run of
  the script that finds the key leaves the store initialized.
\<close>

theorem store_invariant:
  assumes "reachable ul st"
  shows "(\<forall>ms. messages st = Some ms \<longrightarrow>
            ms \<noteq> [] \<and>
            (\<forall>m\<in>set ms. role m = str ''assistant'' \<longrightarrow>
               sources m = Some (extract_sources ul (content m)) \<or> sources m = Some [])) \<and>
         (\<forall>e w c shown st'. script ul e w st = (c, shown, st') \<and> \<not> no_api_key e \<longrightarrow>
            messages st' \<noteq> None)"
proof -
  from assms have ok: "session_ok ul st" by (rule reachable_ok)
  then have "\<forall>ms. messages st = Some ms \<longrightarrow>
            ms \<noteq> [] \<and>
            (\<forall>m\<in>set ms. role m = str ''assistant'' \<longrightarrow>
               sources m = Some (extract_sources ul (content m)) \<or> sources m = Some [])"
    by (simp add: session_ok_def store_ok_def)
  moreover have "\<forall>e w c shown st'. script ul e w st = (c, shown, st') \<and> \<not> no_api_key e \<longrightarrow>
            messages st' \<noteq> None"
    using script_ok [OF ok] by blast
  ultimately show ?thesis by (rule conjI)
qed

text \<open>
  A session: the user submits a question, the script appends it and runs again, the agent
  answers with a link. The store then holds the greeting, the question and the answer, and the
  answer carries the source of its link.
\<close>

theorem store_invariant_witness:
  "reachable unicode_excerpt
     \<lparr>messages = Some
        [greeting,
         \<lparr>role = str ''user'', content = str ''What is attention?'', sources = None\<rparr>,
         \<lparr>role = str ''assistant'', content = str ''See https://arxiv.org/abs/1706.03762 (paper).'',
            sources = Some
              [\<lparr>title = str ''arXiv Academic Paper'',
                 url = Some (str ''https://arxiv.org/abs/1706.03762''),
                 type = str ''academic''\<rparr>]\<rparr>],
      agent = Some (Some AgentExecutor)\<rparr> \<and>
   [greeting,
    \<lparr>role = str ''user'', content = str ''What is attention?'', sources = None\<rparr>,
    \<lparr>role = str ''assistant'', content = str ''See https://arxiv.org/abs/1706.03762 (paper).'',
       sources = Some
         [\<lparr>title = str ''arXiv Academic Paper'',
            url = Some (str ''https://arxiv.org/abs/1706.03762''),
            type = str ''academic''\<rparr>]\<rparr>] \<noteq> [] \<and>
   Some [\<lparr>title = str ''arXiv Academic Paper'',
            url = Some (str ''https://arxiv.org/abs/1706.03762''),
            type = str ''academic''\<rparr>] =
     Some (extract_sources unicode_excerpt (str ''See https://arxiv.org/abs/1706.03762 (paper).''))"
proof -
  let ?q = "\<lparr>role = str ''user'', content = str ''What is attention?'', sources = None\<rparr>"
  let ?a = "\<lparr>role = str ''assistant'', content = str ''See https://arxiv.org/abs/1706.03762 (paper).'',
            sources = Some
              [\<lparr>title = str ''arXiv Academic Paper'',
                 url = Some (str ''https://arxiv.org/abs/1706.03762''),
                 type = str ''academic''\<rparr>]\<rparr>"
  let ?st1 = "\<lparr>messages = Some [greeting, ?q], agent = Some (Some AgentExecutor)\<rparr>"
  let ?st2 = "\<lparr>messages = Some [greeting, ?q, ?a], agent = Some (Some AgentExecutor)\<rparr>"
  have 1: "script unicode_excerpt answering (ChatInput (str ''What is attention?''))
      \<lparr>messages = None, agent = None\<rparr> = (Rerun, [], ?st1)"
    by code_simp
  have 2: "script unicode_excerpt answering NoWidget ?st1 = (Completed, [], ?st2)"
    by code_simp
  have r: "reachable unicode_excerpt ?st2"
    using reachable.run [OF reachable.run [OF reachable.start 1] 2] .
  have m: "messages ?st2 = Some [greeting, ?q, ?a]" by simp
  have a: "?a \<in> set [greeting, ?q, ?a]" "role ?a = str ''assistant''" by simp_all
  have n: "sources ?a \<noteq> Some []" by simp
  from store_invariant [OF r] m
  have "[greeting, ?q, ?a] \<noteq> []"
    and "\<forall>m\<in>set [greeting, ?q, ?a]. role m = str ''assistant'' \<longrightarrow>
       sources m = Some (extract_sources unicode_excerpt (content m)) \<or> sources m = Some []"
    by blast+
  with a n have "[greeting, ?q, ?a] \<noteq> []"
    and "sources ?a = Some (extract_sources unicode_excerpt (content ?a))"
    by blast+
  with r show ?thesis by simp
qed

text \<open>
  C7. The specification says that, with no agent, every submission is rejected with the
  message that the assistant is not initialized, and appends nothing. The script does so for
  the chat input. A click on a quick-action button is not checked: the script appends the
  canned question to the store and shows no message, and in the run that follows nothing
  answers the question, which stays the last message of the store.
\<close>

theorem quick_action_unchecked:
  assumes "\<not> no_api_key e" and "messages st = Some ms" and "agent st = Some None"
  shows "script ul e ButtonLatestAI st =
      (Rerun, [],
       st\<lparr>messages := Some (ms @
          [\<lparr>role = str ''user'',
            content = str ''Find the latest research papers about artificial intelligence from arXiv'',
            sources = None\<rparr>])\<rparr>) \<and>
    interact ul e ButtonLatestAI st =
      (Completed, [],
       st\<lparr>messages := Some (ms @
          [\<lparr>role = str ''user'',
            content = str ''Find the latest research papers about artificial intelligence from arXiv'',
            sources = None\<rparr>])\<rparr>) \<and>
    (\<forall>prompt. prompt \<noteq> [] \<longrightarrow>
       script ul e (ChatInput prompt) st =
         (Stopped,
          [Error (str ''Research assistant is not properly initialized. Please check your API key.'')],
          st))"
proof (intro conjI allI impI)
  let ?q = "\<lparr>role = str ''user'',
            content = str ''Find the latest research papers about artificial intelligence from arXiv'',
            sources = None\<rparr>"
  let ?st' = "st\<lparr>messages := Some (ms @ [?q])\<rparr>"
  have i: "initialize_session e st = ([], st)"
    using assms(2,3) by (rule initialize_session_ready)
  show 1: "script ul e ButtonLatestAI st = (Rerun, [], ?st')"
    using assms(1,2) i by (simp add: script_def append_message_def)
  have i': "initialize_session e ?st' = ([], ?st')"
    using assms(3) by (intro initialize_session_ready) simp_all
  have p: "process_latest ul e [] ?st' = ([], ?st')"
    using assms(3) by (intro process_latest_idle(2)) simp_all
  have "script ul e NoWidget ?st' = (Completed, [], ?st')"
    using assms(1) i' p by (simp add: script_def)
  with 1 show "interact ul e ButtonLatestAI st = (Completed, [], ?st')"
    by (simp add: interact_def)
  fix prompt :: pytext
  assume "prompt \<noteq> []"
  then show "script ul e (ChatInput prompt) st =
         (Stopped,
          [Error (str ''Research assistant is not properly initialized. Please check your API key.'')],
          st)"
    using assms(1,3) i by (simp add: script_def agent_ready_def not_initialized_def)
qed

text \<open>
  Building the agent has failed in the first run of the session. The click on the first
  quick-action button appends its question behind the greeting.
\<close>

theorem quick_action_unchecked_witness:
  "script unicode_excerpt unbuilt NoWidget \<lparr>messages = None, agent = None\<rparr> =
     (Completed, [Error (str ''Error initializing agent: hub unreachable'')],
      \<lparr>messages = Some [greeting], agent = Some None\<rparr>) \<and>
   \<not> no_api_key unbuilt \<and>
   interact unicode_excerpt unbuilt ButtonLatestAI \<lparr>messages = Some [greeting], agent = Some None\<rparr> =
     (Completed, [],
      \<lparr>messages = Some
         [greeting,
          \<lparr>role = str ''user'',
            content = str ''Find the latest research papers about artificial intelligence from arXiv'',
            sources = None\<rparr>],
       agent = Some None\<rparr>)"
proof -
  let ?st = "\<lparr>messages = Some [greeting], agent = Some None\<rparr>"
  have 0: "script unicode_excerpt unbuilt NoWidget \<lparr>messages = None, agent = None\<rparr> =
     (Completed, [Error (str ''Error initializing agent: hub unreachable'')], ?st)"
    by code_simp
  have k: "\<not> no_api_key unbuilt" by code_simp
  have m: "messages ?st = Some [greeting]" and a: "agent ?st = Some None" by simp_all
  from quick_action_unchecked [OF k m a, of unicode_excerpt]
  have "interact unicode_excerpt unbuilt ButtonLatestAI ?st =
      (Completed, [],
       ?st\<lparr>messages := Some ([greeting] @
          [\<lparr>role = str ''user'',
            content = str ''Find the latest research papers about artificial intelligence from arXiv'',
            sources = None\<rparr>])\<rparr>)"
    by blast
  with 0 k show ?thesis by simp
qed

text \<open>
  C8. Let the last message of the store be a user message, with the agent built, and let both
  the invocation of the agent and the direct call to the language model raise. Then the run
  of the script goes to its end, and it appends one message: the assistant's, with the fixed
  apology as its content and the empty list as its sources. The session goes on: the next
  submission of the user is appended behind the apology.
\<close>

theorem double_failure_apology:
  assumes "\<not> no_api_key e" and "messages st = Some ms" and "ms \<noteq> []"
    and "role (last ms) = str ''user''" and "agent st = Some (Some a)"
    and "agent_invoke e (content (last ms)) = Raised err"
    and "llm_invoke e (content (last ms)) = Raised llm_error"
  shows "script ul e NoWidget st =
      (Completed,
       [Warning (str ''Search tools are temporarily unavailable. Providing direct AI response...'')],
       st\<lparr>messages := Some (ms @
          [\<lparr>role = str ''assistant'',
            content = str ''I'm experiencing technical difficulties. Please try again in a moment.'',
            sources = Some []\<rparr>])\<rparr>) \<and>
    (\<forall>e' prompt. \<not> no_api_key e' \<and> prompt \<noteq> [] \<longrightarrow>
       script ul e' (ChatInput prompt)
         (st\<lparr>messages := Some (ms @
            [\<lparr>role = str ''assistant'',
              content = str ''I'm experiencing technical difficulties. Please try again in a moment.'',
              sources = Some []\<rparr>])\<rparr>) =
       (Rerun, [],
        st\<lparr>messages := Some (ms @
            [\<lparr>role = str ''assistant'',
              content = str ''I'm experiencing technical difficulties. Please try again in a moment.'',
              sources = Some []\<rparr>,
             \<lparr>role = str ''user'', content = prompt, sources = None\<rparr>])\<rparr>))"
proof (intro conjI allI impI)
  let ?apology = "\<lparr>role = str ''assistant'',
            content = str ''I'm experiencing technical difficulties. Please try again in a moment.'',
            sources = Some []\<rparr>"
  have i: "initialize_session e st = ([], st)"
    using assms(2,5) by (rule initialize_session_ready)
  have r: "agent_ready st" using assms(5) by (simp add: agent_ready_def)
  have "process_latest ul e [] st =
      ([Warning (str ''Search tools are temporarily unavailable. Providing direct AI response...'')],
       append_message ?apology st)"
    using assms(2,3,4,6,7) r by (simp add: process_latest_def final_error_def)
  moreover have "append_message ?apology st = st\<lparr>messages := Some (ms @ [?apology])\<rparr>"
    using assms(2) by (simp add: append_message_def)
  ultimately show "script ul e NoWidget st =
      (Completed,
       [Warning (str ''Search tools are temporarily unavailable. Providing direct AI response...'')],
       st\<lparr>messages := Some (ms @ [?apology])\<rparr>)"
    using assms(1) i by (simp add: script_def)
  fix e' :: env and prompt :: pytext
  assume h: "\<not> no_api_key e' \<and> prompt \<noteq> []"
  let ?st' = "st\<lparr>messages := Some (ms @ [?apology])\<rparr>"
  have i': "initialize_session e' ?st' = ([], ?st')"
    using assms(5) by (intro initialize_session_ready) simp_all
  have r': "agent_ready ?st'" using assms(5) by (simp add: agent_ready_def)
  show "script ul e' (ChatInput prompt) ?st' =
       (Rerun, [],
        st\<lparr>messages := Some (ms @ [?apology,
             \<lparr>role = str ''user'', content = prompt, sources = None\<rparr>])\<rparr>)"
    using h i' r' by (simp add: script_def append_message_def)
qed

text \<open>The question of the user is pending, the tools fail and the language model cannot be reached.\<close>

theorem double_failure_apology_witness:
  "\<not> no_api_key failing \<and>
   messages \<lparr>messages = Some [greeting,
       \<lparr>role = str ''user'', content = str ''What is attention?'', sources = None\<rparr>],
     agent = Some (Some AgentExecutor)\<rparr> =
     Some [greeting, \<lparr>role = str ''user'', content = str ''What is attention?'', sources = None\<rparr>] \<and>
   role (last [greeting,
       \<lparr>role = str ''user'', content = str ''What is attention?'', sources = None\<rparr>]) = str ''user'' \<and>
   agent_invoke failing (content (last [greeting,
       \<lparr>role = str ''user'', content = str ''What is attention?'', sources = None\<rparr>])) =
     Raised (str ''tool error'') \<and>
   llm_invoke failing (content (last [greeting,
       \<lparr>role = str ''user'', content = str ''What is attention?'', sources = None\<rparr>])) =
     Raised (str ''connection error'') \<and>
   script unicode_excerpt failing NoWidget
     \<lparr>messages = Some [greeting,
        \<lparr>role = str ''user'', content = str ''What is attention?'', sources = None\<rparr>],
      agent = Some (Some AgentExecutor)\<rparr> =
     (Completed,
      [Warning (str ''Search tools are temporarily unavailable. Providing direct AI response...'')],
      \<lparr>messages = Some [greeting,
         \<lparr>role = str ''user'', content = str ''What is attention?'', sources = None\<rparr>,
         \<lparr>role = str ''assistant'',
           content = str ''I'm experiencing technical difficulties. Please try again in a moment.'',
           sources = Some []\<rparr>],
       agent = Some (Some AgentExecutor)\<rparr>)"
proof -
  let ?q = "\<lparr>role = str ''user'', content = str ''What is attention?'', sources = None\<rparr>"
  let ?st = "\<lparr>messages = Some [greeting, ?q], agent = Some (Some AgentExecutor)\<rparr>"
  have k: "\<not> no_api_key failing" by code_simp
  have m: "messages ?st = Some [greeting, ?q]" by simp
  have n: "[greeting, ?q] \<noteq> []" by simp
  have u: "role (last [greeting, ?q]) = str ''user''" by simp
  have a: "agent ?st = Some (Some AgentExecutor)" by simp
  have f1: "agent_invoke failing (content (last [greeting, ?q])) = Raised (str ''tool error'')"
    by (simp add: failing_def)
  have f2: "llm_invoke failing (content (last [greeting, ?q])) = Raised (str ''connection error'')"
    by (simp add: failing_def)
  from double_failure_apology [OF k m n u a f1 f2, of unicode_excerpt]
  have "script unicode_excerpt failing NoWidget ?st =
     (Completed,
      [Warning (str ''Search tools are temporarily unavailable. Providing direct AI response...'')],
      ?st\<lparr>messages := Some ([greeting, ?q] @
          [\<lparr>role = str ''assistant'',
            content = str ''I'm experiencing technical difficulties. Please try again in a moment.'',
            sources = Some []\<rparr>])\<rparr>)"
    by (rule conjunct1)
  with k m u f1 f2 show ?thesis by simp
qed

text \<open>
  C9. A click on the button that clears the chat, in a run that finds the key: whatever the
  store held, after the run, and after the run that follows it, the store holds exactly one
  message, the assistant's, with the empty list as its sources.
\<close>

theorem clear_resets:
  assumes "\<not> no_api_key e"
  shows "(\<exists>shown st'. script ul e ButtonClear st = (Rerun, shown, st') \<and>
            messages st' = Some
              [\<lparr>role = str ''assistant'',
                content = str ''Chat cleared! How can I assist you with your research today?'',
                sources = Some []\<rparr>]) \<and>
         (\<exists>shown st'. interact ul e ButtonClear st = (Completed, shown, st') \<and>
            messages st' = Some
              [\<lparr>role = str ''assistant'',
                content = str ''Chat cleared! How can I assist you with your research today?'',
                sources = Some []\<rparr>] \<and>
            length (the (messages st')) = 1)"
proof -
  obtain shown1 st1 where i: "initialize_session e st = (shown1, st1)"
    by (cases "initialize_session e st")
  from i have a1: "agent st1 \<noteq> None"
    by (auto simp: initialize_session_def Let_def split: if_splits prod.splits)
  let ?st2 = "st1\<lparr>messages := Some [cleared]\<rparr>"
  have 1: "script ul e ButtonClear st = (Rerun, shown1, ?st2)"
    using assms i by (simp add: script_def)
  from a1 obtain a where a: "agent ?st2 = Some a" by auto
  have i2: "initialize_session e ?st2 = ([], ?st2)"
    using a by (intro initialize_session_ready) simp_all
  have lastrole: "role cleared \<noteq> str ''user''"
    using roles_differ by (simp add: cleared_def)
  have p: "process_latest ul e [] ?st2 = ([], ?st2)"
    by (rule process_latest_idle(1) [of _ "[cleared]"]) (simp_all add: lastrole)
  have 2: "script ul e NoWidget ?st2 = (Completed, [], ?st2)"
    using assms i2 p by (simp add: script_def)
  have 3: "interact ul e ButtonClear st = (Completed, [], ?st2)"
    using 1 2 by (simp add: interact_def)
  have c: "messages ?st2 = Some
      [\<lparr>role = str ''assistant'',
        content = str ''Chat cleared! How can I assist you with your research today?'',
        sources = Some []\<rparr>]"
    by (simp add: cleared_def)
  from 1 3 c show ?thesis by simp
qed

text \<open>The store of three messages of the session above is cleared.\<close>

theorem clear_resets_witness:
  "\<not> no_api_key answering \<and>
   interact unicode_excerpt answering ButtonClear
     \<lparr>messages = Some
        [greeting,
         \<lparr>role = str ''user'', content = str ''What is attention?'', sources = None\<rparr>,
         \<lparr>role = str ''assistant'', content = str ''See https://arxiv.org/abs/1706.03762 (paper).'',
            sources = Some
              [\<lparr>title = str ''arXiv Academic Paper'',
                 url = Some (str ''https://arxiv.org/abs/1706.03762''),
                 type = str ''academic''\<rparr>]\<rparr>],
      agent = Some (Some AgentExecutor)\<rparr> =
     (Completed, [],
      \<lparr>messages = Some
         [\<lparr>role = str ''assistant'',
           content = str ''Chat cleared! How can I assist you with your research today?'',
           sources = Some []\<rparr>],
       agent = Some (Some AgentExecutor)\<rparr>)"
proof -
  let ?st = "\<lparr>messages = Some
        [greeting,
         \<lparr>role = str ''user'', content = str ''What is attention?'', sources = None\<rparr>,
         \<lparr>role = str ''assistant'', content = str ''See https://arxiv.org/abs/1706.03762 (paper).'',
            sources = Some
              [\<lparr>title = str ''arXiv Academic Paper'',
                 url = Some (str ''https://arxiv.org/abs/1706.03762''),
                 type = str ''academic''\<rparr>]\<rparr>],
      agent = Some (Some AgentExecutor)\<rparr>"
  have k: "\<not> no_api_key answering" by code_simp
  from clear_resets [OF k, of unicode_excerpt ?st] obtain shown st'
    where r: "interact unicode_excerpt answering ButtonClear ?st = (Completed, shown, st')"
      and m: "messages st' = Some
         [\<lparr>role = str ''assistant'',
           content = str ''Chat cleared! How can I assist you with your research today?'',
           sources = Some []\<rparr>]"
    by blast
  have "interact unicode_excerpt answering ButtonClear ?st =
     (Completed, [],
      \<lparr>messages = Some
         [\<lparr>role = str ''assistant'',
           content = str ''Chat cleared! How can I assist you with your research today?'',
           sources = Some []\<rparr>],
       agent = Some (Some AgentExecutor)\<rparr>)"
    by code_simp
  with k r m show ?thesis by simp
qed

end
